theory Spec2Isabelle
  imports Complex_Main
begin

section \<open>The cluster metadata cache of kafka/cluster.py\<close>

text \<open>
  A shallow embedding of the class \<^verbatim>\<open>ClusterMetadata\<close> of \<^verbatim>\<open>kafka/cluster.py\<close>.
  The object is a record that every method takes and returns; a method that can
  raise returns a sum whose left side is the exception. The wall clock
  (\<^verbatim>\<open>time.time() * 1000\<close>) is a parameter \<open>now\<close> of the methods that read it. A
  reading of the clock is a finite float, so \<open>now\<close> and the two timestamps of the
  state are the real numbers that these floats denote; the two configuration values
  are not validated and are arbitrary floats, and the arithmetic of \<^verbatim>\<open>ttl\<close> rounds
  every sum and difference as the floating-point unit does. Log messages have no
  effect on the state and are left out. When a method raises, the model returns the
  exception only: it does not describe the state that the interrupted method leaves
  behind.
\<close>

subsection \<open>Values of the collaborators\<close>

text \<open>\<^verbatim>\<open>BrokerMetadata\<close> of \<^verbatim>\<open>kafka.common\<close>: a named tuple (node id, host, port).\<close>

datatype BrokerMetadata = BrokerMetadata int string int

text \<open>\<^verbatim>\<open>TopicPartition\<close>: the argument of \<^verbatim>\<open>leader_for_partition\<close>, read through
  its attributes \<^verbatim>\<open>topic\<close> and \<^verbatim>\<open>partition\<close>.\<close>

datatype TopicPartition = TopicPartition (tp_topic: string) (tp_partition: int)

text \<open>
  Modelled from the spec: the error classes of \<^verbatim>\<open>kafka.common\<close>, which is not among the
  sources. The spec names the kinds that \<^verbatim>\<open>update_metadata\<close> tells apart and a
  catch-all kind for every other class (here tagged with a number that identifies the
  class). The registry \<^verbatim>\<open>Errors.for_code\<close> itself is a parameter \<open>for_code\<close> of the
  model wherever the source calls it.
\<close>

datatype error_type =
    NoError
  | LeaderNotAvailableError
  | UnknownTopicOrPartitionError
  | TopicAuthorizationFailedError
  | InvalidTopicError
  | OtherError int

text \<open>An exception instance: an error class instantiated with one argument, as in
  \<^verbatim>\<open>Errors.for_code(error_code)(topic)\<close>.\<close>

datatype exn = KafkaError error_type string

text \<open>The exceptions that the modelled code itself can raise.\<close>

datatype py_error = KeyError | IllegalStateError

text \<open>
  Modelled from the spec: the class \<^verbatim>\<open>Future\<close> of \<^verbatim>\<open>kafka/future.py\<close>, which is not
  among the sources. The spec describes a one-shot cell that is created unresolved,
  is resolved once with success or with a failure, and can be asked whether it is
  resolved; resolving a resolved cell is forbidden, which the model reports as
  \<open>IllegalStateError\<close>. The value of a success is the cache object itself
  (\<^verbatim>\<open>self._future.success(self)\<close>); the model has one cache, so the constructor
  carries no argument.

  Futures are shared between the cache and the callers of \<^verbatim>\<open>request_update\<close>, so
  they live in a store: a handle is an address, \<open>heap\<close> maps addresses to cells and
  \<open>next_handle\<close> is the first address not yet allocated.
\<close>

datatype future_cell = Unresolved | Success | Failure exn

type_synonym handle = nat

definition is_done :: "(handle \<Rightarrow> future_cell) \<Rightarrow> handle \<Rightarrow> bool" where
  "is_done hp h = (hp h \<noteq> Unresolved)"

definition future_success :: "(handle \<Rightarrow> future_cell) \<Rightarrow> handle \<Rightarrow> py_error + (handle \<Rightarrow> future_cell)" where
  "future_success hp h = (if is_done hp h then Inl IllegalStateError else Inr (hp(h := Success)))"

definition future_failure :: "(handle \<Rightarrow> future_cell) \<Rightarrow> handle \<Rightarrow> exn \<Rightarrow> py_error + (handle \<Rightarrow> future_cell)" where
  "future_failure hp h e = (if is_done hp h then Inl IllegalStateError else Inr (hp(h := Failure e)))"

text \<open>A listener is a callback object; the model keeps its identity only.\<close>

type_synonym listener = nat

subsection \<open>Python floats\<close>

text \<open>
  The millisecond arithmetic of \<^verbatim>\<open>ttl\<close> is arithmetic on Python floats: IEEE 754
  binary64 with rounding to nearest, ties to even. A float is a finite value, an
  infinity or NaN. A finite float is given by the real number that it denotes; the
  two zeros are the one value \<open>Fin 0\<close>, since they compare equal to each other and
  to the integer \<^verbatim>\<open>0\<close>. A Python integer that a double represents exactly behaves in
  these sums, differences and comparisons like that double, so the integers of the
  source (the class defaults 100 and 300000, the initial timestamps 0 and the
  constant 0) are the corresponding floats here. Configuration values that are not
  numbers, or integers that no double represents, are outside the model.

  \<open>round64 x\<close> is the result of rounding the real \<open>x\<close> to a double. The doubles
  around \<open>x\<close> are the integer multiples of \<open>2\<close> to the power \<open>exponent x\<close>, which
  lies 52 below the binary order of magnitude of \<open>x\<close> and is never below -1074
  (the subnormal range); \<open>x\<close> is rounded to the nearest multiple, a tie to the even
  one; a result of magnitude \<open>2 ^ 1024\<close> or more is an infinity.
\<close>

datatype pyfloat = Fin real | PInf | NInf | NaN

definition round_half_even :: "real \<Rightarrow> int" where
  "round_half_even y =
     (let f = \<lfloor>y\<rfloor>; d = y - of_int f
      in if d < 1 / 2 then f
         else if 1 / 2 < d then f + 1
         else if even f then f else f + 1)"

definition pow2 :: "int \<Rightarrow> real" where
  "pow2 e = 2 powr of_int e"

definition exponent :: "real \<Rightarrow> int" where
  "exponent x = max (- 1074) (\<lfloor>log 2 \<bar>x\<bar>\<rfloor> - 52)"

definition nearest64 :: "real \<Rightarrow> real" where
  "nearest64 x = of_int (round_half_even (x / pow2 (exponent x))) * pow2 (exponent x)"

definition round64 :: "real \<Rightarrow> pyfloat" where
  "round64 x =
     (let y = nearest64 x
      in if 2 ^ 1024 \<le> y then PInf
         else if y \<le> - (2 ^ 1024) then NInf
         else Fin y)"

text \<open>A real number is a double when rounding leaves it as it is.\<close>

definition is_double :: "real \<Rightarrow> bool" where
  "is_double x = (round64 x = Fin x)"

text \<open>Python's \<^verbatim>\<open>+\<close>, unary and binary \<^verbatim>\<open>-\<close> and \<^verbatim>\<open>>\<close> on floats. A comparison with
  NaN is false.\<close>

fun fadd :: "pyfloat \<Rightarrow> pyfloat \<Rightarrow> pyfloat" where
  "fadd (Fin a) (Fin b) = round64 (a + b)"
| "fadd NaN y = NaN"
| "fadd x NaN = NaN"
| "fadd PInf NInf = NaN"
| "fadd NInf PInf = NaN"
| "fadd PInf y = PInf"
| "fadd x PInf = PInf"
| "fadd NInf y = NInf"
| "fadd x NInf = NInf"

fun fneg :: "pyfloat \<Rightarrow> pyfloat" where
  "fneg (Fin a) = Fin (- a)"
| "fneg PInf = NInf"
| "fneg NInf = PInf"
| "fneg NaN = NaN"

definition fsub :: "pyfloat \<Rightarrow> pyfloat \<Rightarrow> pyfloat" where
  "fsub x y = fadd x (fneg y)"

fun fgt :: "pyfloat \<Rightarrow> pyfloat \<Rightarrow> bool" where
  "fgt (Fin a) (Fin b) = (b < a)"
| "fgt NaN y = False"
| "fgt x NaN = False"
| "fgt PInf PInf = False"
| "fgt PInf y = True"
| "fgt x PInf = False"
| "fgt NInf y = False"
| "fgt x NInf = True"

text \<open>The builtin \<^verbatim>\<open>max\<close> of three arguments: it starts with the first argument and
  replaces it by a later one only when that one compares greater.\<close>

definition pymax3 :: "pyfloat \<Rightarrow> pyfloat \<Rightarrow> pyfloat \<Rightarrow> pyfloat" where
  "pymax3 a b c =
     (let m = a;
          m = (if fgt b m then b else m);
          m = (if fgt c m then c else m)
      in m)"

text \<open>The values \<open>k * 2 ^ - 1074\<close>, of which every double is one.\<close>

definition on_grid :: "real \<Rightarrow> bool" where
  "on_grid x = (\<exists>k::int. x = of_int k * pow2 (- 1074))"

subsection \<open>The metadata response\<close>

text \<open>
  \<^verbatim>\<open>metadata.brokers\<close> is a list of triples (node id, host, port); \<^verbatim>\<open>metadata.topics\<close>
  is a list of triples (error code, topic, partitions), and a partition is a 5-tuple
  of which the source reads the second component (the partition index) and the third
  (the leader).
\<close>

type_synonym partition_entry = "int \<times> int \<times> int \<times> int list \<times> int list"

type_synonym topic_entry = "int \<times> string \<times> partition_entry list"

record MetadataResponse =
  r_brokers :: "(int \<times> string \<times> int) list"
  r_topics :: "topic_entry list"

subsection \<open>The state\<close>

text \<open>
  The fields \<open>self_x\<close> are the attributes \<^verbatim>\<open>self._x\<close>. Two more fields stand for the
  world outside the object: the store of futures, and \<open>calls\<close>, which counts for
  every listener how often it has been invoked. A callback is assumed to return
  normally and not to touch the cache.
\<close>

record ClusterMetadata =
  self_retry_backoff_ms :: pyfloat
  self_metadata_max_age_ms :: pyfloat
  self_brokers :: "int \<rightharpoonup> BrokerMetadata"
  self_partitions :: "string \<rightharpoonup> (int \<rightharpoonup> int)"
  self_groups :: "string \<rightharpoonup> int"
  self_version :: int
  self_last_refresh_ms :: real
  self_last_successful_refresh_ms :: real
  self_need_update :: bool
  self_future :: "handle option"
  self_listeners :: "listener set"
  heap :: "handle \<Rightarrow> future_cell"
  next_handle :: handle
  calls :: "listener \<Rightarrow> nat"

text \<open>The keyword arguments that \<^verbatim>\<open>__init__\<close> reads; \<open>None\<close> is an absent keyword.\<close>

record kwargs =
  kw_retry_backoff_ms :: "pyfloat option"
  kw_metadata_max_age_ms :: "pyfloat option"

definition init :: "kwargs \<Rightarrow> ClusterMetadata" where
  "init kw =
     \<lparr> self_retry_backoff_ms = (case kw_retry_backoff_ms kw of None \<Rightarrow> Fin 100 | Some v \<Rightarrow> v),
       self_metadata_max_age_ms = (case kw_metadata_max_age_ms kw of None \<Rightarrow> Fin 300000 | Some v \<Rightarrow> v),
       self_brokers = Map.empty,
       self_partitions = Map.empty,
       self_groups = Map.empty,
       self_version = 0,
       self_last_refresh_ms = 0,
       self_last_successful_refresh_ms = 0,
       self_need_update = False,
       self_future = None,
       self_listeners = {},
       heap = (\<lambda>_. Unresolved),
       next_handle = 0,
       calls = (\<lambda>_. 0) \<rparr>"

subsection \<open>Queries\<close>

text \<open>
  A dictionary is a map. \<^verbatim>\<open>d.get(k)\<close> is the application \<open>d k\<close>, with \<open>None\<close> for
  Python's \<^verbatim>\<open>None\<close>; \<^verbatim>\<open>d[k]\<close> raises \<^verbatim>\<open>KeyError\<close> for a missing key. The two
  queries that index the partition dictionary therefore return a sum, and the
  answer "not found" is \<open>Inr None\<close>.
\<close>

definition dict_getitem :: "('k \<rightharpoonup> 'v) \<Rightarrow> 'k \<Rightarrow> py_error + 'v" where
  "dict_getitem d k = (case d k of None \<Rightarrow> Inl KeyError | Some v \<Rightarrow> Inr v)"

definition brokers :: "ClusterMetadata \<Rightarrow> BrokerMetadata set" where
  "brokers self = ran (self_brokers self)"

definition broker_metadata :: "ClusterMetadata \<Rightarrow> int \<Rightarrow> BrokerMetadata option" where
  "broker_metadata self broker_id = self_brokers self broker_id"

definition partitions_for_topic :: "ClusterMetadata \<Rightarrow> string \<Rightarrow> py_error + int set option" where
  "partitions_for_topic self topic =
     (if self_partitions self topic = None then Inr None
      else case dict_getitem (self_partitions self) topic of
             Inl err \<Rightarrow> Inl err
           | Inr leaders \<Rightarrow> Inr (Some (dom leaders)))"

definition leader_for_partition :: "ClusterMetadata \<Rightarrow> TopicPartition \<Rightarrow> py_error + int option" where
  "leader_for_partition self tp =
     (if self_partitions self (tp_topic tp) = None then Inr None
      else case dict_getitem (self_partitions self) (tp_topic tp) of
             Inl err \<Rightarrow> Inl err
           | Inr leaders \<Rightarrow> Inr (leaders (tp_partition tp)))"

definition coordinator_for_group :: "ClusterMetadata \<Rightarrow> string \<Rightarrow> int option" where
  "coordinator_for_group self grp = self_groups self grp"

definition topics :: "ClusterMetadata \<Rightarrow> string set" where
  "topics self = dom (self_partitions self)"

text \<open>\<^verbatim>\<open>ttl\<close>: both deadlines are a rounded sum from which \<open>now\<close> is subtracted
  with another rounding, and the result is the builtin \<^verbatim>\<open>max\<close> of the two and 0.\<close>

definition ttl :: "real \<Rightarrow> ClusterMetadata \<Rightarrow> pyfloat" where
  "ttl now self =
     (let ttl = (if self_need_update self then Fin 0
                 else fsub (fadd (Fin (self_last_successful_refresh_ms self))
                                 (self_metadata_max_age_ms self)) (Fin now));
          retry = fsub (fadd (Fin (self_last_refresh_ms self)) (self_retry_backoff_ms self))
                       (Fin now)
      in pymax3 ttl retry (Fin 0))"

subsection \<open>The update handshake\<close>

text \<open>
  \<^verbatim>\<open>request_update\<close> returns the future, so the model returns the handle and the state.
  A \<^verbatim>\<open>Future\<close> object is always true in \<^verbatim>\<open>if not self._future\<close>; only \<^verbatim>\<open>None\<close> is false.
\<close>

definition request_update :: "ClusterMetadata \<Rightarrow> handle \<times> ClusterMetadata" where
  "request_update self =
     (let self1 = self\<lparr>self_need_update := True\<rparr>
      in case self_future self1 of
           None \<Rightarrow>
             (next_handle self1,
              self1\<lparr>heap := (heap self1)(next_handle self1 := Unresolved),
                     next_handle := Suc (next_handle self1),
                     self_future := Some (next_handle self1)\<rparr>)
         | Some h \<Rightarrow>
             if is_done (heap self1) h then
               (next_handle self1,
                self1\<lparr>heap := (heap self1)(next_handle self1 := Unresolved),
                       next_handle := Suc (next_handle self1),
                       self_future := Some (next_handle self1)\<rparr>)
             else (h, self1))"

definition failed_update :: "real \<Rightarrow> exn \<Rightarrow> ClusterMetadata \<Rightarrow> py_error + ClusterMetadata" where
  "failed_update now exception self =
     (case self_future self of
        None \<Rightarrow> Inr (self\<lparr>self_last_refresh_ms := now\<rparr>)
      | Some h \<Rightarrow>
          (case future_failure (heap self) h exception of
             Inl err \<Rightarrow> Inl err
           | Inr hp \<Rightarrow> Inr (self\<lparr>heap := hp, self_future := None, self_last_refresh_ms := now\<rparr>)))"

subsection \<open>Merging a response\<close>

text \<open>The loop over \<^verbatim>\<open>metadata.brokers\<close>: every entry is written into the dictionary
  that is already there.\<close>

fun update_brokers ::
  "(int \<rightharpoonup> BrokerMetadata) \<Rightarrow> (int \<times> string \<times> int) list \<Rightarrow> (int \<rightharpoonup> BrokerMetadata)" where
  "update_brokers m [] = m"
| "update_brokers m ((node_id, host, port) # rest) =
     update_brokers (m(node_id \<mapsto> BrokerMetadata node_id host port)) rest"

text \<open>The inner loop over the partitions of one topic.\<close>

fun update_leaders :: "(int \<rightharpoonup> int) \<Rightarrow> partition_entry list \<Rightarrow> (int \<rightharpoonup> int)" where
  "update_leaders m [] = m"
| "update_leaders m ((_, part, leader, _, _) # rest) =
     update_leaders (m(part \<mapsto> leader)) rest"

text \<open>
  The loop over \<^verbatim>\<open>metadata.topics\<close>. For a topic of class \<open>NoError\<close> the entry of the
  topic is set to an empty dictionary, which the inner loop fills. Every other
  branch of the source only writes a log message.
\<close>

fun update_partitions ::
  "(int \<Rightarrow> error_type) \<Rightarrow> (string \<rightharpoonup> (int \<rightharpoonup> int)) \<Rightarrow> topic_entry list \<Rightarrow> (string \<rightharpoonup> (int \<rightharpoonup> int))" where
  "update_partitions for_code m [] = m"
| "update_partitions for_code m ((error_code, topic, partitions) # rest) =
     (let error_type = for_code error_code
      in if error_type = NoError then
           update_partitions for_code (m(topic \<mapsto> update_leaders Map.empty partitions)) rest
         else update_partitions for_code m rest)"

text \<open>The loop \<^verbatim>\<open>for listener in self._listeners: listener(self)\<close>: every listener of
  the set is invoked once, in no particular order.\<close>

definition notify :: "listener set \<Rightarrow> (listener \<Rightarrow> nat) \<Rightarrow> (listener \<Rightarrow> nat)" where
  "notify ls count = (\<lambda>l. if l \<in> ls then Suc (count l) else count l)"

text \<open>The test of the first statement of \<^verbatim>\<open>update_metadata\<close>.\<close>

definition single_topic_error :: "MetadataResponse \<Rightarrow> bool" where
  "single_topic_error metadata =
     (length (r_topics metadata) = 1 \<and> fst (r_topics metadata ! 0) \<noteq> 0)"

definition update_metadata ::
  "(int \<Rightarrow> error_type) \<Rightarrow> real \<Rightarrow> MetadataResponse \<Rightarrow> ClusterMetadata \<Rightarrow> py_error + ClusterMetadata" where
  "update_metadata for_code now metadata self =
     (if single_topic_error metadata then
        (case r_topics metadata ! 0 of
           (error_code, topic, _) \<Rightarrow>
             failed_update now (KafkaError (for_code error_code) topic) self)
      else
        let self1 = self\<lparr>self_brokers := update_brokers (self_brokers self) (r_brokers metadata)\<rparr>;
            self2 = self1\<lparr>self_partitions := update_partitions for_code Map.empty (r_topics metadata)\<rparr>
        in case (case self_future self2 of
                   None \<Rightarrow> Inr (heap self2)
                 | Some h \<Rightarrow> future_success (heap self2) h) of
             Inl err \<Rightarrow> Inl err
           | Inr hp \<Rightarrow>
               Inr (self2\<lparr>heap := hp,
                          self_future := None,
                          self_need_update := False,
                          self_version := self_version self2 + 1,
                          self_last_refresh_ms := now,
                          self_last_successful_refresh_ms := now,
                          calls := notify (self_listeners self2) (calls self2)\<rparr>))"

subsection \<open>Listeners\<close>

definition add_listener :: "listener \<Rightarrow> ClusterMetadata \<Rightarrow> ClusterMetadata" where
  "add_listener l self = self\<lparr>self_listeners := insert l (self_listeners self)\<rparr>"

text \<open>\<^verbatim>\<open>set.remove\<close> raises \<^verbatim>\<open>KeyError\<close> for an element that is not in the set.\<close>

definition remove_listener :: "listener \<Rightarrow> ClusterMetadata \<Rightarrow> py_error + ClusterMetadata" where
  "remove_listener l self =
     (if l \<in> self_listeners self then Inr (self\<lparr>self_listeners := self_listeners self - {l}\<rparr>)
      else Inl KeyError)"

subsection \<open>Sequences of calls\<close>

text \<open>A call of one of the mutating methods; a sequence of calls stops at the first
  exception. Every call comes with the time at which it is made.\<close>

datatype call =
    RequestUpdate
  | FailedUpdate exn
  | UpdateMetadata MetadataResponse
  | AddListener listener
  | RemoveListener listener

fun step :: "(int \<Rightarrow> error_type) \<Rightarrow> real \<times> call \<Rightarrow> ClusterMetadata \<Rightarrow> py_error + ClusterMetadata" where
  "step for_code (now, RequestUpdate) self = Inr (snd (request_update self))"
| "step for_code (now, FailedUpdate e) self = failed_update now e self"
| "step for_code (now, UpdateMetadata metadata) self = update_metadata for_code now metadata self"
| "step for_code (now, AddListener l) self = Inr (add_listener l self)"
| "step for_code (now, RemoveListener l) self = remove_listener l self"

fun run :: "(int \<Rightarrow> error_type) \<Rightarrow> (real \<times> call) list \<Rightarrow> ClusterMetadata \<Rightarrow> py_error + ClusterMetadata" where
  "run for_code [] self = Inr self"
| "run for_code (c # cs) self =
     (case step for_code c self of
        Inl err \<Rightarrow> Inl err
      | Inr self' \<Rightarrow> run for_code cs self')"

subsection \<open>Invariants of the pending handle\<close>

text \<open>The handle that the cache holds, if any, is unresolved, and it has been
  allocated. Both hold after \<open>init\<close> and after every call.\<close>

definition handle_pending :: "ClusterMetadata \<Rightarrow> bool" where
  "handle_pending self =
     (case self_future self of None \<Rightarrow> True | Some h \<Rightarrow> \<not> is_done (heap self) h)"

definition handle_allocated :: "ClusterMetadata \<Rightarrow> bool" where
  "handle_allocated self =
     (case self_future self of None \<Rightarrow> True | Some h \<Rightarrow> h < next_handle self)"

subsection \<open>What a response lists\<close>

definition partition_index :: "partition_entry \<Rightarrow> int" where
  "partition_index p = fst (snd p)"

text \<open>The partitions of the last entry of a topic list that names topic \<open>t\<close> with an
  error code of class \<open>NoError\<close>.\<close>

fun last_noerror_entry ::
  "(int \<Rightarrow> error_type) \<Rightarrow> topic_entry list \<Rightarrow> string \<Rightarrow> partition_entry list option" where
  "last_noerror_entry for_code [] t = None"
| "last_noerror_entry for_code ((error_code, topic, parts) # rest) t =
     (case last_noerror_entry for_code rest t of
        Some ps \<Rightarrow> Some ps
      | None \<Rightarrow> if topic = t \<and> for_code error_code = NoError then Some parts else None)"

text \<open>The topics that a topic list names with an error code of class \<open>NoError\<close>, and
  all partition indices that such entries list for topic \<open>t\<close>.\<close>

definition noerror_topics :: "(int \<Rightarrow> error_type) \<Rightarrow> topic_entry list \<Rightarrow> string set" where
  "noerror_topics for_code ts =
     set (map (\<lambda>e. fst (snd e)) (filter (\<lambda>e. for_code (fst e) = NoError) ts))"

definition listed_partitions :: "(int \<Rightarrow> error_type) \<Rightarrow> topic_entry list \<Rightarrow> string \<Rightarrow> int set" where
  "listed_partitions for_code ts t =
     set (map partition_index
           (concat (map (\<lambda>e. snd (snd e))
             (filter (\<lambda>e. fst (snd e) = t \<and> for_code (fst e) = NoError) ts))))"

text \<open>The last entry of a broker list for node \<open>n\<close>, as a \<open>BrokerMetadata\<close>.\<close>

fun last_broker_entry :: "(int \<times> string \<times> int) list \<Rightarrow> int \<Rightarrow> BrokerMetadata option" where
  "last_broker_entry [] n = None"
| "last_broker_entry ((node_id, host, port) # rest) n =
     (case last_broker_entry rest n of
        Some b \<Rightarrow> Some b
      | None \<Rightarrow> if node_id = n then Some (BrokerMetadata node_id host port) else None)"

subsection \<open>What a sequence of calls contains\<close>

text \<open>A successful update is a call of \<^verbatim>\<open>update_metadata\<close> that does not take the
  single-topic error path.\<close>

fun successful :: "real \<times> call \<Rightarrow> bool" where
  "successful (now, UpdateMetadata metadata) = (\<not> single_topic_error metadata)"
| "successful (now, c) = False"

fun is_remove :: "real \<times> call \<Rightarrow> bool" where
  "is_remove (now, RemoveListener l) = True"
| "is_remove (now, c) = False"

text \<open>The response of the last successful update of a sequence.\<close>

fun last_successful :: "(real \<times> call) list \<Rightarrow> MetadataResponse option" where
  "last_successful [] = None"
| "last_successful (c # cs) =
     (case last_successful cs of
        Some metadata \<Rightarrow> Some metadata
      | None \<Rightarrow> (case c of (now, UpdateMetadata metadata) \<Rightarrow>
                    if single_topic_error metadata then None else Some metadata
                 | _ \<Rightarrow> None))"

subsection \<open>Concrete inputs\<close>

text \<open>
  Modelled from the spec: an instance of the registry \<^verbatim>\<open>Errors.for_code\<close>, which is not
  among the sources, for evaluating the model on concrete responses. The spec gives
  code 0 as \<open>NoError\<close> and code 3 as \<open>UnknownTopicOrPartition\<close>; every other code
  is taken here as the catch-all class, tagged with the code. The general theorems
  do not use it: they hold for every registry \<open>for_code\<close>.
\<close>

definition spec_for_code :: "int \<Rightarrow> error_type" where
  "spec_for_code error_code =
     (if error_code = 0 then NoError
      else if error_code = 3 then UnknownTopicOrPartitionError
      else OtherError error_code)"

definition default_kwargs :: kwargs where
  "default_kwargs = \<lparr> kw_retry_backoff_ms = None, kw_metadata_max_age_ms = None \<rparr>"

definition orders_response :: MetadataResponse where
  "orders_response =
     \<lparr> r_brokers = [(1, ''h1'', 9092), (2, ''h2'', 9092)],
       r_topics = [(0, ''orders'', [(0, 0, 1, [], []), (0, 1, 2, [], [])]), (3, ''ghost'', [])] \<rparr>"

definition solo_response :: MetadataResponse where
  "solo_response = \<lparr> r_brokers = [], r_topics = [(5, ''solo'', [])] \<rparr>"

definition old_broker_response :: MetadataResponse where
  "old_broker_response = \<lparr> r_brokers = [(7, ''h7'', 9092)], r_topics = [] \<rparr>"

definition repeated_topic_response :: MetadataResponse where
  "repeated_topic_response =
     \<lparr> r_brokers = [],
       r_topics = [(0, ''t'', [(0, 0, 1, [], [])]), (0, ''t'', [(0, 1, 2, [], [])])] \<rparr>"

definition no_partitions_response :: MetadataResponse where
  "no_partitions_response = \<lparr> r_brokers = [], r_topics = [(0, ''t'', [])] \<rparr>"

definition refresh_calls :: "(real \<times> call) list" where
  "refresh_calls =
     [(1, RequestUpdate),
      (2, UpdateMetadata orders_response),
      (3, FailedUpdate (KafkaError (OtherError 7) ''down'')),
      (4, UpdateMetadata solo_response),
      (5, UpdateMetadata old_broker_response)]"

definition repeated_topic_calls :: "(real \<times> call) list" where
  "repeated_topic_calls = [(1, UpdateMetadata repeated_topic_response)]"

definition no_partitions_calls :: "(real \<times> call) list" where
  "no_partitions_calls = [(1, RequestUpdate), (2, UpdateMetadata no_partitions_response)]"

definition orders_calls :: "(real \<times> call) list" where
  "orders_calls =
     [(1, UpdateMetadata no_partitions_response),
      (2, UpdateMetadata orders_response),
      (3, UpdateMetadata solo_response)]"

definition stale_broker_calls :: "(real \<times> call) list" where
  "stale_broker_calls =
     [(1, UpdateMetadata old_broker_response), (2, UpdateMetadata orders_response)]"

definition empty_response :: MetadataResponse where
  "empty_response = \<lparr> r_brokers = [], r_topics = [] \<rparr>"

definition warm_state :: ClusterMetadata where
  "warm_state =
     snd (request_update
       (projr (update_metadata spec_for_code 2 orders_response
                (add_listener 5 (init default_kwargs)))))"

text \<open>A configuration with a retry backoff of \<open>2 ^ - 14\<close> milliseconds, and the state
  after a refresh that failed at the clock reading 1700000000000.\<close>

definition short_backoff_kwargs :: kwargs where
  "short_backoff_kwargs =
     \<lparr> kw_retry_backoff_ms = Some (Fin (1 / 16384)), kw_metadata_max_age_ms = None \<rparr>"

definition short_backoff_state :: ClusterMetadata where
  "short_backoff_state =
     projr (failed_update 1700000000000 (KafkaError (OtherError 7) ''down'')
              (init short_backoff_kwargs))"

section \<open>Properties\<close>

subsection \<open>The steps under the invariant\<close>

lemma failed_update_pending:
  assumes "handle_pending self"
  shows "failed_update now e self =
     Inr (self\<lparr>heap := (case self_future self of None \<Rightarrow> heap self
                          | Some h \<Rightarrow> (heap self)(h := Failure e)),
               self_future := None,
               self_last_refresh_ms := now\<rparr>)"
  using assms
  by (cases "self_future self")
     (simp_all add: failed_update_def handle_pending_def future_failure_def)

lemma update_metadata_short_circuit:
  assumes "single_topic_error metadata"
  shows "update_metadata for_code now metadata self =
     failed_update now
       (KafkaError (for_code (fst (r_topics metadata ! 0))) (fst (snd (r_topics metadata ! 0)))) self"
  using assms by (simp add: update_metadata_def split: prod.splits)

lemma update_metadata_merge:
  assumes "\<not> single_topic_error metadata" and "handle_pending self"
  shows "update_metadata for_code now metadata self =
     Inr (self\<lparr>self_brokers := update_brokers (self_brokers self) (r_brokers metadata),
               self_partitions := update_partitions for_code Map.empty (r_topics metadata),
               heap := (case self_future self of None \<Rightarrow> heap self
                          | Some h \<Rightarrow> (heap self)(h := Success)),
               self_future := None,
               self_need_update := False,
               self_version := self_version self + 1,
               self_last_refresh_ms := now,
               self_last_successful_refresh_ms := now,
               calls := notify (self_listeners self) (calls self)\<rparr>)"
proof (cases "self_future self")
  case None
  then show ?thesis
    using assms(1) by (simp add: update_metadata_def Let_def)
next
  case (Some h)
  with assms(2) have "\<not> is_done (heap self) h"
    by (simp add: handle_pending_def)
  then show ?thesis
    using assms(1) Some by (simp add: update_metadata_def Let_def future_success_def)
qed

lemma init_handle_pending: "handle_pending (init kw)"
  by (simp add: handle_pending_def init_def)

lemma init_handle_allocated: "handle_allocated (init kw)"
  by (simp add: handle_allocated_def init_def)

lemma request_update_handle_pending: "handle_pending (snd (request_update self))"
  by (simp add: handle_pending_def request_update_def Let_def is_done_def split: option.splits)

lemma request_update_handle_allocated:
  "handle_allocated self \<Longrightarrow> handle_allocated (snd (request_update self))"
  by (simp add: handle_allocated_def request_update_def Let_def split: option.splits)

subsection \<open>Rounding to a double\<close>

lemma pow2_pos: "0 < pow2 e"
  by (simp add: pow2_def)

lemma pow2_add: "pow2 (a + b) = pow2 a * pow2 b"
  by (simp add: pow2_def powr_add)

lemma pow2_nat: "pow2 (int n) = 2 ^ n"
  by (simp add: pow2_def powr_realpow)

lemma exponent_ge: "- 1074 \<le> exponent x"
  by (simp add: exponent_def)

lemma pow2_shift: "- 1074 \<le> e \<Longrightarrow> pow2 e = of_int (2 ^ nat (e + 1074)) * pow2 (- 1074)"
proof -
  assume low: "- 1074 \<le> e"
  define n where "n = nat (e + 1074)"
  with low have e: "e = int n + (- 1074)" by simp
  have "pow2 e = pow2 (int n) * pow2 (- 1074)"
    unfolding e by (rule pow2_add)
  then show ?thesis
    by (simp add: pow2_nat n_def [symmetric])
qed

lemma nearest64_on_grid: "on_grid (nearest64 x)"
proof -
  let ?e = "exponent x"
  let ?k = "round_half_even (x / pow2 ?e)"
  have "nearest64 x = of_int ?k * (of_int (2 ^ nat (?e + 1074)) * pow2 (- 1074))"
    unfolding nearest64_def using pow2_shift [OF exponent_ge [of x]] by simp
  then have "nearest64 x = of_int (?k * 2 ^ nat (?e + 1074)) * pow2 (- 1074)"
    by simp
  then show ?thesis
    unfolding on_grid_def by blast
qed

lemma on_grid_diff: "on_grid a \<Longrightarrow> on_grid b \<Longrightarrow> on_grid (a - b)"
proof -
  assume "on_grid a" "on_grid b"
  then obtain k l :: int where "a = of_int k * pow2 (- 1074)" "b = of_int l * pow2 (- 1074)"
    unfolding on_grid_def by blast
  then have "a - b = of_int (k - l) * pow2 (- 1074)"
    by (simp add: algebra_simps)
  then show ?thesis unfolding on_grid_def by blast
qed

lemma on_grid_pos:
  assumes "on_grid x" and "0 < x"
  shows "pow2 (- 1074) \<le> x"
proof -
  from assms(1) obtain k :: int where k: "x = of_int k * pow2 (- 1074)"
    unfolding on_grid_def by blast
  with assms(2) pow2_pos [of "- 1074"] have "0 < (of_int k :: real)"
    by (simp add: zero_less_mult_iff)
  then have "1 \<le> (of_int k :: real)" by simp
  then have "1 * pow2 (- 1074) \<le> of_int k * pow2 (- 1074)"
    using pow2_pos [of "- 1074"] by (intro mult_right_mono) simp_all
  with k show ?thesis by simp
qed

lemma round_half_even_ge_1: "1 \<le> y \<Longrightarrow> 1 \<le> round_half_even y"
proof -
  assume "1 \<le> y"
  then have "1 \<le> \<lfloor>y\<rfloor>" by linarith
  then show ?thesis
    by (simp add: round_half_even_def Let_def)
qed

lemma round_half_even_le_0: "y \<le> 0 \<Longrightarrow> round_half_even y \<le> 0"
proof -
  assume y: "y \<le> 0"
  then have f: "\<lfloor>y\<rfloor> \<le> 0" by linarith
  have up: "\<lfloor>y\<rfloor> + 1 \<le> 0" if "1 / 2 \<le> y - of_int \<lfloor>y\<rfloor>"
    using that y by linarith
  show ?thesis
    unfolding round_half_even_def Let_def using f up by (auto simp add: not_less)
qed

lemma scaled_ge_1:
  assumes "pow2 (- 1074) \<le> x"
  shows "1 \<le> x / pow2 (exponent x)"
proof (cases "exponent x = - 1074")
  case True
  with assms pow2_pos [of "- 1074"] show ?thesis
    by (simp add: le_divide_eq)
next
  case False
  from assms pow2_pos [of "- 1074"] have pos: "0 < x" by linarith
  let ?E = "\<lfloor>log 2 x\<rfloor>"
  from pos have ax: "\<bar>x\<bar> = x" by simp
  from False have e: "exponent x = ?E - 52"
    by (simp add: exponent_def ax max_def split: if_splits)
  from pos have "2 powr real_of_int ?E \<le> x"
    using floor_log_eq_powr_iff [of x 2 ?E] by simp
  then have low: "pow2 ?E \<le> x" by (simp add: pow2_def)
  have split: "pow2 ?E = pow2 52 * pow2 (?E - 52)"
    using pow2_add [of 52 "?E - 52"] by simp
  have "(1::real) \<le> pow2 52"
    using pow2_nat [of 52] by simp
  then have "1 * pow2 (?E - 52) \<le> pow2 52 * pow2 (?E - 52)"
    using pow2_pos [of "?E - 52"] by (intro mult_right_mono) simp_all
  with low split have "1 * pow2 (?E - 52) \<le> x"
    by linarith
  then show ?thesis
    using pow2_pos [of "?E - 52"] by (simp add: e le_divide_eq)
qed

lemma nearest64_sign:
  assumes "on_grid x"
  shows "(0 < nearest64 x) = (0 < x)"
proof (cases "0 < x")
  case True
  from on_grid_pos [OF assms True] have "1 \<le> x / pow2 (exponent x)"
    by (rule scaled_ge_1)
  then have "1 \<le> round_half_even (x / pow2 (exponent x))"
    by (rule round_half_even_ge_1)
  then have "0 < (of_int (round_half_even (x / pow2 (exponent x))) :: real)"
    by simp
  with True pow2_pos [of "exponent x"] show ?thesis
    by (simp add: nearest64_def)
next
  case False
  then have "x / pow2 (exponent x) \<le> 0"
    using pow2_pos [of "exponent x"] by (simp add: divide_le_0_iff)
  then have "round_half_even (x / pow2 (exponent x)) \<le> 0"
    by (rule round_half_even_le_0)
  then have "(of_int (round_half_even (x / pow2 (exponent x))) :: real) \<le> 0"
    by simp
  then have "nearest64 x \<le> 0"
    using pow2_pos [of "exponent x"] by (simp add: nearest64_def mult_le_0_iff)
  with False show ?thesis by simp
qed

lemma fgt_round64_0: "fgt (round64 x) (Fin 0) = (0 < nearest64 x)"
proof -
  have "(0::real) < 2 ^ 1024" by simp
  then show ?thesis
    by (auto simp add: round64_def Let_def)
qed

lemma is_double_on_grid: "is_double x \<Longrightarrow> on_grid x"
proof -
  assume "is_double x"
  then have "nearest64 x = x"
    by (simp add: is_double_def round64_def Let_def split: if_splits)
  with nearest64_on_grid [of x] show ?thesis by simp
qed

lemma fsub_sign:
  assumes "is_double n"
  shows "fgt (fsub (fadd (Fin a) b) (Fin n)) (Fin 0) = fgt (fadd (Fin a) b) (Fin n)"
proof (cases "fadd (Fin a) b")
  case (Fin s)
  have grid: "on_grid s"
  proof (cases b)
    case (Fin b')
    with \<open>fadd (Fin a) b = Fin s\<close> have "round64 (a + b') = Fin s" by simp
    then have "nearest64 (a + b') = s"
      by (simp add: round64_def Let_def split: if_splits)
    with nearest64_on_grid [of "a + b'"] show ?thesis by simp
  qed (use \<open>fadd (Fin a) b = Fin s\<close> in simp_all)
  from on_grid_diff [OF grid is_double_on_grid [OF assms]]
  have "(0 < nearest64 (s - n)) = (0 < s - n)"
    by (rule nearest64_sign)
  then show ?thesis
    by (simp add: Fin fsub_def fgt_round64_0)
qed (simp_all add: fsub_def)


lemma fgt_asym: "fgt r (Fin 0) \<Longrightarrow> \<not> fgt (Fin 0) r"
  by (cases r) simp_all

lemma pymax3_retry: "pymax3 (Fin 0) r (Fin 0) = (if fgt r (Fin 0) then r else Fin 0)"
  by (simp add: pymax3_def Let_def fgt_asym)

lemma pymax3_zero: "(pymax3 (Fin 0) r (Fin 0) = Fin 0) = (\<not> fgt r (Fin 0))"
  unfolding pymax3_retry by (cases r) auto

lemma pymax3_not_below: "\<not> fgt (Fin 0) (pymax3 a b (Fin 0))"
  by (simp add: pymax3_def Let_def)

lemma pymax3_Fin: "pymax3 (Fin a) (Fin b) (Fin 0) = Fin (max (max a b) 0)"
  by (simp add: pymax3_def Let_def max_def)

lemma round_half_even_of_int: "round_half_even (of_int m) = m"
  by (simp add: round_half_even_def Let_def)

lemma nearest64_exact:
  assumes "x = of_int m * pow2 (exponent x)"
  shows "nearest64 x = x"
proof -
  define p where "p = pow2 (exponent x)"
  have pos: "0 < p" by (simp add: p_def pow2_pos)
  from assms have x: "x = of_int m * p" by (simp add: p_def)
  from pos have "of_int m * p / p = (of_int m :: real)" by simp
  then have "x / p = of_int m" by (simp only: x [symmetric])
  then have "of_int (round_half_even (x / p)) * p = x"
    by (simp only: round_half_even_of_int x [symmetric])
  then show ?thesis
    by (simp only: nearest64_def p_def)
qed

lemma exponent_eq:
  assumes "0 < x" and "pow2 E \<le> x" and "x < pow2 (E + 1)" and "- 1022 \<le> E"
  shows "exponent x = E - 52"
proof -
  from assms(1) have ax: "\<bar>x\<bar> = x" by simp
  from assms(2,3) have "2 powr real_of_int E \<le> x \<and> x < 2 powr real_of_int (E + 1)"
    by (simp add: pow2_def)
  with assms(1) have "\<lfloor>log 2 x\<rfloor> = E"
    using floor_log_eq_powr_iff [of x 2 E] by simp
  with assms(4) show ?thesis
    by (simp add: exponent_def ax)
qed

lemma pow2_neg: "pow2 (- int n) = 1 / 2 ^ n"
proof -
  have "pow2 (- int n) * pow2 (int n) = 1"
    using pow2_add [of "- int n" "int n"] by (simp add: pow2_def)
  then show ?thesis
    by (simp add: pow2_nat field_simps)
qed

lemma nearest64_nonpos: "x \<le> 0 \<Longrightarrow> nearest64 x \<le> 0"
proof -
  assume "x \<le> 0"
  then have "x / pow2 (exponent x) \<le> 0"
    using pow2_pos [of "exponent x"] by (simp add: divide_le_0_iff)
  then have "round_half_even (x / pow2 (exponent x)) \<le> 0"
    by (rule round_half_even_le_0)
  then have "(of_int (round_half_even (x / pow2 (exponent x))) :: real) \<le> 0"
    by simp
  then show ?thesis
    using pow2_pos [of "exponent x"] by (simp add: nearest64_def mult_le_0_iff)
qed

lemma round_half_even_le: "y \<le> of_int m \<Longrightarrow> round_half_even y \<le> m"
proof -
  assume y: "y \<le> of_int m"
  then have f: "\<lfloor>y\<rfloor> \<le> m" by linarith
  have d: "y - of_int \<lfloor>y\<rfloor> < 1 / 2" if "\<lfloor>y\<rfloor> = m"
    using that y by linarith
  show ?thesis
  proof (cases "\<lfloor>y\<rfloor> = m")
    case True
    with d show ?thesis by (simp add: round_half_even_def Let_def)
  next
    case False
    with f have "\<lfloor>y\<rfloor> + 1 \<le> m" by simp
    with f show ?thesis by (simp add: round_half_even_def Let_def)
  qed
qed

lemma nearest64_le_grid:
  assumes "x \<le> of_int m * pow2 (exponent x)"
  shows "nearest64 x \<le> of_int m * pow2 (exponent x)"
proof -
  define p where "p = pow2 (exponent x)"
  have pos: "0 < p" by (simp add: p_def pow2_pos)
  from assms have "x \<le> of_int m * p" by (simp add: p_def)
  with pos have "x / p \<le> of_int m" by (simp add: pos_divide_le_eq)
  then have "round_half_even (x / p) \<le> m" by (rule round_half_even_le)
  then have "(of_int (round_half_even (x / p)) :: real) \<le> of_int m" by simp
  with pos have "of_int (round_half_even (x / p)) * p \<le> of_int m * p"
    by (intro mult_right_mono) simp_all
  then show ?thesis by (simp only: nearest64_def p_def)
qed

lemma pow2_mono: "a \<le> b \<Longrightarrow> pow2 a \<le> pow2 b"
  by (simp add: pow2_def)

lemma pow2_multiple: "e \<le> e' \<Longrightarrow> pow2 e' = of_int (2 ^ nat (e' - e)) * pow2 e"
proof -
  assume le: "e \<le> e'"
  define k where "k = nat (e' - e)"
  with le have e': "e' = int k + e" by simp
  have "pow2 e' = pow2 (int k) * pow2 e"
    unfolding e' by (rule pow2_add)
  then show ?thesis
    by (simp add: pow2_nat k_def [symmetric])
qed

lemma floor_log_bounds:
  assumes "0 < a"
  shows "pow2 \<lfloor>log 2 a\<rfloor> \<le> a \<and> a < pow2 (\<lfloor>log 2 a\<rfloor> + 1)"
  using assms floor_log_eq_powr_iff [of a 2 "\<lfloor>log 2 a\<rfloor>"] by (simp add: pow2_def)

lemma exponent_mono:
  assumes "0 < \<bar>a\<bar>" and "\<bar>a\<bar> \<le> \<bar>b\<bar>"
  shows "exponent a \<le> exponent b"
proof -
  from assms have "log 2 \<bar>a\<bar> \<le> log 2 \<bar>b\<bar>" by simp
  then have "\<lfloor>log 2 \<bar>a\<bar>\<rfloor> \<le> \<lfloor>log 2 \<bar>b\<bar>\<rfloor>" by (rule floor_mono)
  then show ?thesis by (simp add: exponent_def)
qed

lemma nearest64_multiple: "\<exists>m::int. nearest64 n = of_int m * pow2 (exponent n)"
  unfolding nearest64_def by blast

lemma nearest64_le_double:
  assumes fixed: "nearest64 n = n" and le: "x \<le> n"
  shows "nearest64 x \<le> n"
proof -
  from fixed nearest64_multiple [of n] obtain m' :: int where n: "n = of_int m' * pow2 (exponent n)"
    by auto
  consider "x \<le> 0" "0 \<le> n" | "0 < x" | "n < 0" by linarith
  then show ?thesis
  proof cases
    case 1
    with nearest64_nonpos [of x] show ?thesis by linarith
  next
    case 2
    with le have "0 < \<bar>x\<bar>" "\<bar>x\<bar> \<le> \<bar>n\<bar>" by simp_all
    then have "exponent x \<le> exponent n" by (rule exponent_mono)
    from pow2_multiple [OF this] n
    have "n = of_int (m' * 2 ^ nat (exponent n - exponent x)) * pow2 (exponent x)"
      by simp
    with le nearest64_le_grid [of x "m' * 2 ^ nat (exponent n - exponent x)"]
    show ?thesis by simp
  next
    case 3
    with le have abs: "0 < \<bar>n\<bar>" "\<bar>n\<bar> \<le> \<bar>x\<bar>" by simp_all
    then have mono: "exponent n \<le> exponent x" by (rule exponent_mono)
    show ?thesis
    proof (cases "exponent n = exponent x")
      case True
      with n have "n = of_int m' * pow2 (exponent x)" by simp
      with le nearest64_le_grid [of x m'] show ?thesis by simp
    next
      case False
      let ?E = "\<lfloor>log 2 \<bar>x\<bar>\<rfloor>"
      let ?E' = "\<lfloor>log 2 \<bar>n\<bar>\<rfloor>"
      from False mono have less: "exponent n < exponent x" by simp
      with exponent_ge [of n] have e: "exponent x = ?E - 52"
        by (simp add: exponent_def max_def split: if_splits)
      from less e have "?E' + 1 \<le> ?E"
        by (simp add: exponent_def max_def split: if_splits)
      then have "pow2 (?E' + 1) \<le> pow2 ?E" by (rule pow2_mono)
      with floor_log_bounds [OF abs(1)] have small: "\<bar>n\<bar> < pow2 ?E" by linarith
      from abs have "0 < \<bar>x\<bar>" by linarith
      from floor_log_bounds [OF this] have "pow2 ?E \<le> \<bar>x\<bar>" by simp
      with 3 le have big: "x \<le> - pow2 ?E" by linarith
      have "pow2 ?E = of_int (2 ^ nat (?E - (?E - 52))) * pow2 (?E - 52)"
        by (rule pow2_multiple) simp
      then have "- pow2 ?E = of_int (- (2 ^ 52)) * pow2 (exponent x)"
        by (simp add: e)
      with big nearest64_le_grid [of x "- (2 ^ 52)"] have "nearest64 x \<le> - pow2 ?E"
        by simp
      with small 3 show ?thesis by linarith
    qed
  qed
qed

lemma pow2_less_cancel: "pow2 a < pow2 b \<Longrightarrow> a < b"
  by (simp add: pow2_def)

lemma is_double_of_int:
  assumes "\<bar>k\<bar> < 2 ^ 53"
  shows "is_double (of_int k)"
proof -
  let ?x = "of_int k :: real"
  have near: "nearest64 ?x = ?x"
  proof (cases "k = 0")
    case True
    then show ?thesis
      by (simp add: nearest64_def round_half_even_def Let_def)
  next
    case False
    let ?E = "\<lfloor>log 2 \<bar>?x\<bar>\<rfloor>"
    from False have "1 \<le> \<bar>k\<bar>" by linarith
    then have "(1::real) \<le> of_int \<bar>k\<bar>" by (simp only: of_int_1_le_iff)
    then have one: "1 \<le> \<bar>?x\<bar>" by simp
    then have pos: "0 < \<bar>?x\<bar>" by linarith
    note b = floor_log_bounds [OF pos]
    from assms have "(of_int \<bar>k\<bar> :: real) < 2 ^ 53"
      by (simp only: of_int_less_numeral_power_cancel_iff)
    then have "\<bar>?x\<bar> < 2 ^ 53" by simp
    with b have "pow2 ?E < pow2 53" using pow2_nat [of 53] by simp
    then have "?E < 53" by (rule pow2_less_cancel)
    then have up: "?E \<le> 52" by simp
    from one b have "pow2 0 < pow2 (?E + 1)" by (simp add: pow2_def)
    then have "0 < ?E + 1" by (rule pow2_less_cancel)
    then have low: "0 \<le> ?E" by simp
    from low have e: "exponent ?x = ?E - 52" by (simp add: exponent_def)
    define j where "j = nat (52 - ?E)"
    with up have "?E - 52 = - int j" by simp
    with e have e': "exponent ?x = - int j" by simp
    have "?x = of_int (k * 2 ^ j) * pow2 (exponent ?x)"
      unfolding e' pow2_neg by simp
    then show ?thesis by (rule nearest64_exact)
  qed
  from assms have "(of_int \<bar>k\<bar> :: real) < 2 ^ 53"
    by (simp only: of_int_less_numeral_power_cancel_iff)
  then have "\<bar>?x\<bar> < 2 ^ 53" by simp
  moreover have "(2::real) ^ 53 < 2 ^ 1024" by simp
  ultimately have "?x < 2 ^ 1024" "- (2 ^ 1024) < ?x" by linarith+
  with near show ?thesis
    by (simp add: is_double_def round64_def Let_def)
qed

lemma round64_le_double:
  assumes "is_double n" and "x \<le> n"
  shows "\<not> fgt (round64 x) (Fin n)"
proof -
  from assms(1) have fixed: "nearest64 n = n" and bound: "n < 2 ^ 1024"
    by (simp_all add: is_double_def round64_def Let_def split: if_splits)
  from nearest64_le_double [OF fixed assms(2)] bound show ?thesis
    by (simp add: round64_def Let_def)
qed

lemma round64_not_NaN: "round64 x \<noteq> NaN"
  by (simp add: round64_def Let_def)

lemma fsub_fadd_NaN: "(fsub (fadd (Fin a) b) (Fin n) = NaN) = (b = NaN)"
proof (cases b)
  case (Fin b')
  then show ?thesis
    by (cases "round64 (a + b')") (simp_all add: fsub_def round64_not_NaN)
qed (simp_all add: fsub_def)

lemma pymax3_NaN: "(pymax3 a b (Fin 0) = NaN) = (a = NaN)"
  by (cases a; cases b) (auto simp add: pymax3_def Let_def)

lemma round64_of_int: "\<bar>k\<bar> < 2 ^ 53 \<Longrightarrow> round64 (of_int k) = Fin (of_int k)"
  using is_double_of_int [of k] by (simp add: is_double_def)

subsection \<open>The time to live\<close>

lemma ttl_after_request_update:
  "ttl now (snd (request_update self)) =
     pymax3 (Fin 0)
       (fsub (fadd (Fin (self_last_refresh_ms self)) (self_retry_backoff_ms self)) (Fin now))
       (Fin 0)"
proof -
  have "self_need_update (snd (request_update self))"
    and "self_last_refresh_ms (snd (request_update self)) = self_last_refresh_ms self"
    and "self_retry_backoff_ms (snd (request_update self)) = self_retry_backoff_ms self"
    by (simp_all add: request_update_def Let_def split: option.splits)
  then show ?thesis
    by (simp add: ttl_def Let_def)
qed

lemma ttl_zero_iff:
  assumes "is_double now"
  shows "(ttl now (snd (request_update self)) = Fin 0)
       = (\<not> fgt (fadd (Fin (self_last_refresh_ms self)) (self_retry_backoff_ms self)) (Fin now))"
  by (simp add: ttl_after_request_update pymax3_zero fsub_sign [OF assms])

lemma round64_example: "round64 (1700000000000 + 1 / 16384) = Fin 1700000000000"
proof -
  let ?x = "1700000000000 + 1 / 16384 :: real"
  have "exponent ?x = 40 - 52"
  proof (rule exponent_eq)
    show "pow2 40 \<le> ?x" using pow2_nat [of 40] by simp
    show "?x < pow2 (40 + 1)" using pow2_nat [of 41] by simp
  qed simp_all
  then have e: "exponent ?x = - int 12" by simp
  have "round_half_even (?x / pow2 (exponent ?x)) = 6963200000000000"
    unfolding e pow2_neg by (simp add: round_half_even_def Let_def)
  then have "nearest64 ?x = 1700000000000"
    unfolding nearest64_def e pow2_neg by simp
  then show ?thesis
    by (simp add: round64_def Let_def)
qed

lemma is_double_example: "is_double (1 / 16384)"
proof -
  let ?x = "1 / 16384 :: real"
  have "exponent ?x = - 14 - 52"
  proof (rule exponent_eq)
    show "pow2 (- 14) \<le> ?x" using pow2_neg [of 14] by simp
    show "?x < pow2 (- 14 + 1)" using pow2_neg [of 13] by simp
  qed simp_all
  then have e: "exponent ?x = - int 66" by simp
  have "?x = of_int (2 ^ 52) * pow2 (exponent ?x)"
    unfolding e pow2_neg by simp
  then have "nearest64 ?x = ?x" by (rule nearest64_exact)
  then show ?thesis
    by (simp add: is_double_def round64_def Let_def)
qed

text \<open>
  Claim C4, as stated, fails in the arithmetic of the source. The retry deadline is
  computed from the rounded sum \<^verbatim>\<open>self._last_refresh_ms + self._retry_backoff_ms\<close>, and
  the doubles near 1700000000000, a clock reading in milliseconds, are \<open>2 ^ - 12\<close>
  apart. With a retry backoff of \<open>2 ^ - 14\<close> milliseconds the sum rounds back to
  \<open>last_refresh_ms\<close>: after a refresh that failed at 1700000000000 and a call of
  \<^verbatim>\<open>request_update\<close>, \<^verbatim>\<open>ttl\<close> at that same clock reading is 0, although the retry
  backoff has not passed since \<open>last_refresh_ms\<close>.
\<close>

theorem ttl_rounding_counterexample:
  "is_double 1700000000000
   \<and> is_double (1 / 16384)
   \<and> \<not> isl (failed_update 1700000000000 (KafkaError (OtherError 7) ''down'')
              (init short_backoff_kwargs))
   \<and> self_last_refresh_ms short_backoff_state = 1700000000000
   \<and> self_retry_backoff_ms short_backoff_state = Fin (1 / 16384)
   \<and> ttl 1700000000000 (snd (request_update short_backoff_state)) = Fin 0
   \<and> \<not> (1 / 16384 \<le> 1700000000000 - self_last_refresh_ms short_backoff_state)"
proof -
  let ?s = "init short_backoff_kwargs"
  let ?e = "KafkaError (OtherError 7) ''down''"
  have now: "is_double 1700000000000"
    using is_double_of_int [of 1700000000000] by simp
  have none: "self_future ?s = None"
    by (simp add: init_def)
  have failed: "failed_update 1700000000000 ?e ?s = Inr (?s\<lparr>self_last_refresh_ms := 1700000000000\<rparr>)"
    by (simp add: failed_update_def none)
  then have returns: "\<not> isl (failed_update 1700000000000 ?e ?s)"
    by simp
  from failed have stamp: "self_last_refresh_ms short_backoff_state = 1700000000000"
    and backoff: "self_retry_backoff_ms short_backoff_state = Fin (1 / 16384)"
    by (simp_all add: short_backoff_state_def init_def short_backoff_kwargs_def)
  have sum: "fadd (Fin 1700000000000) (Fin (1 / 16384)) = Fin 1700000000000"
    by (simp only: fadd.simps round64_example)
  have zero: "ttl 1700000000000 (snd (request_update short_backoff_state)) = Fin 0"
    unfolding ttl_zero_iff [OF now] stamp backoff sum by simp
  have early: "\<not> (1 / 16384 \<le> 1700000000000 - self_last_refresh_ms short_backoff_state)"
    unfolding stamp by simp
  from now is_double_example returns stamp backoff zero early show ?thesis
    by blast
qed

text \<open>
  Claim C4, amended. For every state of the cache and every clock reading \<open>now\<close>,
  \<^verbatim>\<open>ttl\<close> returns Python's \<^verbatim>\<open>max\<close> of the age deadline, the retry deadline and 0, where
  the age deadline is 0 when the need-update flag is set and otherwise
  \<open>last_successful_refresh_ms + metadata_max_age_ms - now\<close>, the retry deadline is
  \<open>last_refresh_ms + retry_backoff_ms - now\<close>, and every sum and every difference is
  rounded to a double. The result is never less than 0; it is NaN exactly when the
  flag is clear and \<open>metadata_max_age_ms\<close> is NaN. After \<^verbatim>\<open>request_update\<close> the result
  is 0 exactly when the rounded sum \<open>last_refresh_ms + retry_backoff_ms\<close> is not
  greater than \<open>now\<close>. This is so whenever \<open>retry_backoff_ms\<close> is finite and at least
  that much time has passed since \<open>last_refresh_ms\<close>; because the sum is rounded, it
  can be so earlier.
\<close>

theorem ttl_formula:
  assumes "is_double now"
  shows "ttl now self =
     pymax3 (if self_need_update self then Fin 0
             else fsub (fadd (Fin (self_last_successful_refresh_ms self))
                             (self_metadata_max_age_ms self)) (Fin now))
            (fsub (fadd (Fin (self_last_refresh_ms self)) (self_retry_backoff_ms self)) (Fin now))
            (Fin 0)
   \<and> \<not> fgt (Fin 0) (ttl now self)
   \<and> (ttl now self = NaN) = (\<not> self_need_update self \<and> self_metadata_max_age_ms self = NaN)
   \<and> (ttl now (snd (request_update self)) = Fin 0)
       = (\<not> fgt (fadd (Fin (self_last_refresh_ms self)) (self_retry_backoff_ms self)) (Fin now))
   \<and> (\<forall>b. self_retry_backoff_ms self = Fin b \<and> b \<le> now - self_last_refresh_ms self
          \<longrightarrow> ttl now (snd (request_update self)) = Fin 0)"
proof -
  have formula: "ttl now self =
     pymax3 (if self_need_update self then Fin 0
             else fsub (fadd (Fin (self_last_successful_refresh_ms self))
                             (self_metadata_max_age_ms self)) (Fin now))
            (fsub (fadd (Fin (self_last_refresh_ms self)) (self_retry_backoff_ms self)) (Fin now))
            (Fin 0)"
    by (simp add: ttl_def Let_def)
  have above: "\<not> fgt (Fin 0) (ttl now self)"
    unfolding formula by (rule pymax3_not_below)
  have nan: "(ttl now self = NaN)
       = (\<not> self_need_update self \<and> self_metadata_max_age_ms self = NaN)"
    unfolding formula pymax3_NaN by (simp add: fsub_fadd_NaN)
  have zero: "(ttl now (snd (request_update self)) = Fin 0)
       = (\<not> fgt (fadd (Fin (self_last_refresh_ms self)) (self_retry_backoff_ms self)) (Fin now))"
    by (rule ttl_zero_iff [OF assms])
  have passed: "ttl now (snd (request_update self)) = Fin 0"
    if "self_retry_backoff_ms self = Fin b \<and> b \<le> now - self_last_refresh_ms self" for b
  proof -
    from that have "self_last_refresh_ms self + b \<le> now" by linarith
    from round64_le_double [OF assms this] that show ?thesis
      unfolding zero by simp
  qed
  from formula above nan zero passed show ?thesis
    by blast
qed

theorem ttl_formula_witness:
  "is_double 1000
   \<and> ttl 1000 (init default_kwargs) = Fin 299000
   \<and> \<not> fgt (Fin 0) (ttl 1000 (init default_kwargs))
   \<and> ttl 1000 (init default_kwargs) \<noteq> NaN
   \<and> ttl 1000 (snd (request_update (init default_kwargs))) = Fin 0"
proof -
  let ?s = "init default_kwargs"
  have now: "is_double 1000"
    using is_double_of_int [of 1000] by simp
  note facts = ttl_formula [OF now, of ?s]
  have fields: "\<not> self_need_update ?s" "self_last_successful_refresh_ms ?s = 0"
    "self_last_refresh_ms ?s = 0" "self_metadata_max_age_ms ?s = Fin 300000"
    "self_retry_backoff_ms ?s = Fin 100"
    by (simp_all add: init_def default_kwargs_def)
  have rounded: "round64 300000 = Fin 300000" "round64 299000 = Fin 299000"
    "round64 100 = Fin 100" "round64 (- 900) = Fin (- 900)"
    using round64_of_int [of 300000] round64_of_int [of 299000]
      round64_of_int [of 100] round64_of_int [of "- 900"] by simp_all
  let ?max = "pymax3 (if self_need_update ?s then Fin 0
             else fsub (fadd (Fin (self_last_successful_refresh_ms ?s))
                             (self_metadata_max_age_ms ?s)) (Fin 1000))
            (fsub (fadd (Fin (self_last_refresh_ms ?s)) (self_retry_backoff_ms ?s)) (Fin 1000))
            (Fin 0)"
  from facts have formula: "ttl 1000 ?s = ?max"
    by blast
  have "?max = Fin 299000"
    by (simp add: fields fsub_def rounded pymax3_Fin)
  with formula have v: "ttl 1000 ?s = Fin 299000"
    by (rule trans)
  from facts have above: "\<not> fgt (Fin 0) (ttl 1000 ?s)"
    by blast
  from facts have "(ttl 1000 ?s = NaN)
       = (\<not> self_need_update ?s \<and> self_metadata_max_age_ms ?s = NaN)"
    by blast
  then have finite: "ttl 1000 ?s \<noteq> NaN"
    unfolding fields by simp
  from facts have "self_retry_backoff_ms ?s = Fin 100 \<and> 100 \<le> 1000 - self_last_refresh_ms ?s
       \<longrightarrow> ttl 1000 (snd (request_update ?s)) = Fin 0"
    by blast
  then have zero: "ttl 1000 (snd (request_update ?s)) = Fin 0"
    unfolding fields by simp
  from now v above finite zero show ?thesis
    by blast
qed

subsection \<open>The failure path\<close>

text \<open>
  Claim C8. When the handle that the cache holds (if any) is unresolved,
  \<^verbatim>\<open>failed_update\<close> returns normally, resolves that handle with the failure it is
  given and touches no other future, clears the handle, sets \<open>last_refresh_ms\<close> to
  \<open>now\<close> and changes nothing else: the brokers, the partitions, the groups, the
  version, \<open>last_successful_refresh_ms\<close>, the listeners and the need-update flag
  are as before, and so are the configuration and the count of listener calls.
\<close>

theorem failed_update_frame:
  assumes "handle_pending self"
  shows "\<exists>self'. failed_update now e self = Inr self'
     \<and> heap self' = (case self_future self of None \<Rightarrow> heap self
                      | Some h \<Rightarrow> (heap self)(h := Failure e))
     \<and> self_future self' = None
     \<and> self_last_refresh_ms self' = now
     \<and> self_brokers self' = self_brokers self
     \<and> self_partitions self' = self_partitions self
     \<and> self_groups self' = self_groups self
     \<and> self_version self' = self_version self
     \<and> self_last_successful_refresh_ms self' = self_last_successful_refresh_ms self
     \<and> self_listeners self' = self_listeners self
     \<and> self_need_update self' = self_need_update self
     \<and> self_retry_backoff_ms self' = self_retry_backoff_ms self
     \<and> self_metadata_max_age_ms self' = self_metadata_max_age_ms self
     \<and> next_handle self' = next_handle self
     \<and> calls self' = calls self"
  by (simp add: failed_update_pending [OF assms])

theorem failed_update_frame_witness:
  "\<exists>self'. failed_update 1000 (KafkaError (OtherError 7) ''down'')
             (snd (request_update (init default_kwargs))) = Inr self'
     \<and> heap self' 0 = Failure (KafkaError (OtherError 7) ''down'')
     \<and> self_future self' = None
     \<and> self_last_refresh_ms self' = 1000
     \<and> self_version self' = 0
     \<and> self_last_successful_refresh_ms self' = 0
     \<and> self_need_update self'"
proof -
  have pending: "handle_pending (snd (request_update (init default_kwargs)))"
    by (rule request_update_handle_pending)
  have start: "self_future (snd (request_update (init default_kwargs))) = Some 0"
    "self_version (snd (request_update (init default_kwargs))) = 0"
    "self_need_update (snd (request_update (init default_kwargs)))"
    "self_last_successful_refresh_ms (snd (request_update (init default_kwargs))) = 0"
    by (simp_all add: request_update_def init_def Let_def)
  show ?thesis
    using failed_update_frame [OF pending, of 1000 "KafkaError (OtherError 7) ''down''"]
    by (auto simp add: start)
qed

subsection \<open>The single-topic error path\<close>

text \<open>
  Claim C2. When the response has exactly one topic and its error code is not 0, and
  the handle that the cache holds (if any) is unresolved, \<^verbatim>\<open>update_metadata\<close> returns
  normally, leaves the brokers, the partitions, the version, the need-update flag and
  \<open>last_successful_refresh_ms\<close> as they were, resolves the handle (if any) with the
  failure \<open>for_code error_code\<close> instantiated with the topic name and touches no
  other future, clears the handle and sets \<open>last_refresh_ms\<close> to \<open>now\<close>.
\<close>

theorem single_topic_error_short_circuit:
  assumes "r_topics metadata = [(error_code, topic, parts)]"
    and "error_code \<noteq> 0"
    and "handle_pending self"
  shows "\<exists>self'. update_metadata for_code now metadata self = Inr self'
     \<and> self_brokers self' = self_brokers self
     \<and> self_partitions self' = self_partitions self
     \<and> self_version self' = self_version self
     \<and> self_need_update self' = self_need_update self
     \<and> self_last_successful_refresh_ms self' = self_last_successful_refresh_ms self
     \<and> heap self' = (case self_future self of None \<Rightarrow> heap self
                      | Some h \<Rightarrow> (heap self)(h := Failure (KafkaError (for_code error_code) topic)))
     \<and> self_future self' = None
     \<and> self_last_refresh_ms self' = now"
proof -
  from assms(1,2) have short: "single_topic_error metadata"
    by (simp add: single_topic_error_def)
  have eq: "update_metadata for_code now metadata self =
      failed_update now (KafkaError (for_code error_code) topic) self"
    using update_metadata_short_circuit [OF short] assms(1) by simp
  show ?thesis
    unfolding eq by (simp add: failed_update_pending [OF assms(3)])
qed


theorem single_topic_error_short_circuit_witness:
  "\<exists>self'. update_metadata spec_for_code 1000 solo_response
             (snd (request_update (init default_kwargs))) = Inr self'
     \<and> self_brokers self' = Map.empty
     \<and> self_partitions self' = Map.empty
     \<and> self_version self' = 0
     \<and> self_need_update self'
     \<and> self_last_successful_refresh_ms self' = 0
     \<and> heap self' 0 = Failure (KafkaError (OtherError 5) ''solo'')
     \<and> self_future self' = None
     \<and> self_last_refresh_ms self' = 1000"
proof -
  have topics: "r_topics solo_response = [(5, ''solo'', [])]"
    by (simp add: solo_response_def)
  have pending: "handle_pending (snd (request_update (init default_kwargs)))"
    by (rule request_update_handle_pending)
  have code: "(5::int) \<noteq> 0" by simp
  have start: "self_future (snd (request_update (init default_kwargs))) = Some 0"
    "self_brokers (snd (request_update (init default_kwargs))) = Map.empty"
    "self_partitions (snd (request_update (init default_kwargs))) = Map.empty"
    "self_version (snd (request_update (init default_kwargs))) = 0"
    "self_need_update (snd (request_update (init default_kwargs)))"
    "self_last_successful_refresh_ms (snd (request_update (init default_kwargs))) = 0"
    by (simp_all add: request_update_def init_def Let_def)
  show ?thesis
    using single_topic_error_short_circuit [OF topics code pending, of spec_for_code 1000]
    by (auto simp add: start spec_for_code_def)
qed

subsection \<open>Sequences of calls and the version\<close>

lemma update_metadata_pending:
  assumes "handle_pending self"
  shows "\<exists>self'. update_metadata for_code now metadata self = Inr self'
     \<and> self_future self' = None
     \<and> next_handle self' = next_handle self
     \<and> self_version self' = self_version self + (if single_topic_error metadata then 0 else 1)"
proof (cases "single_topic_error metadata")
  case True
  show ?thesis
    unfolding update_metadata_short_circuit [OF True]
    by (simp add: failed_update_pending [OF assms] True)
next
  case False
  show ?thesis
    by (simp add: update_metadata_merge [OF False assms] False)
qed

lemma handle_pending_None: "self_future self = None \<Longrightarrow> handle_pending self"
  by (simp add: handle_pending_def)

lemma handle_allocated_None: "self_future self = None \<Longrightarrow> handle_allocated self"
  by (simp add: handle_allocated_def)

lemma handle_pending_cong:
  "self_future a = self_future b \<Longrightarrow> heap a = heap b \<Longrightarrow> handle_pending a = handle_pending b"
  by (simp add: handle_pending_def split: option.splits)

lemma step_pending:
  assumes "handle_pending self" and "step for_code c self = Inr self'"
  shows "handle_pending self'
     \<and> self_version self' = self_version self + (if successful c then 1 else 0)"
proof (cases c)
  case (Pair now cl)
  show ?thesis
  proof (cases cl)
    case RequestUpdate
    with Pair assms(2) have "self' = snd (request_update self)" by simp
    then show ?thesis
      using Pair RequestUpdate
      by (simp add: request_update_handle_pending)
         (simp add: request_update_def Let_def split: option.splits)
  next
    case (FailedUpdate e)
    with Pair assms(2) have "failed_update now e self = Inr self'" by simp
    then show ?thesis
      using Pair FailedUpdate
      by (auto simp add: failed_update_pending [OF assms(1)] handle_pending_None)
  next
    case (UpdateMetadata metadata)
    with Pair assms(2) have "update_metadata for_code now metadata self = Inr self'" by simp
    with update_metadata_pending [OF assms(1), of for_code now metadata] show ?thesis
      using Pair UpdateMetadata by (auto simp add: handle_pending_None)
  next
    case (AddListener l)
    with Pair assms(2) have "self' = add_listener l self" by simp
    then show ?thesis
      using Pair AddListener assms(1)
        handle_pending_cong [of "add_listener l self" self]
      by (simp add: add_listener_def)
  next
    case (RemoveListener l)
    with Pair assms(2) have "self' = self\<lparr>self_listeners := self_listeners self - {l}\<rparr>"
      by (simp add: remove_listener_def split: if_splits)
    then show ?thesis
      using Pair RemoveListener assms(1)
        handle_pending_cong [of "self\<lparr>self_listeners := self_listeners self - {l}\<rparr>" self]
      by simp
  qed
qed

lemma step_total:
  assumes "handle_pending self" and "\<not> is_remove c"
  shows "\<exists>self'. step for_code c self = Inr self'"
proof (cases c)
  case (Pair now cl)
  show ?thesis
  proof (cases cl)
    case (UpdateMetadata metadata)
    with Pair update_metadata_pending [OF assms(1), of for_code now metadata] show ?thesis
      by auto
  next
    case (FailedUpdate e)
    with Pair show ?thesis
      by (simp add: failed_update_pending [OF assms(1)])
  next
    case (RemoveListener l)
    with Pair assms(2) show ?thesis by simp
  qed (simp_all add: Pair)
qed

lemma run_version:
  assumes "handle_pending self" and "run for_code cs self = Inr self'"
  shows "handle_pending self'
     \<and> self_version self' = self_version self + int (length (filter successful cs))"
  using assms
proof (induction cs arbitrary: self)
  case Nil
  then show ?case by simp
next
  case (Cons c cs)
  from Cons.prems(2) obtain mid where mid: "step for_code c self = Inr mid"
    and rest: "run for_code cs mid = Inr self'"
    by (auto split: sum.splits)
  from step_pending [OF Cons.prems(1) mid] Cons.IH [OF _ rest] show ?case
    by auto
qed

lemma run_total:
  assumes "handle_pending self" and "\<forall>c \<in> set cs. \<not> is_remove c"
  shows "\<exists>self'. run for_code cs self = Inr self'"
  using assms
proof (induction cs arbitrary: self)
  case Nil
  then show ?case by simp
next
  case (Cons c cs)
  from step_total [OF Cons.prems(1), of c for_code] Cons.prems(2)
  obtain mid where mid: "step for_code c self = Inr mid" by auto
  from step_pending [OF Cons.prems(1) mid] have "handle_pending mid" by simp
  from Cons.IH [OF this] Cons.prems(2) mid show ?case by simp
qed

text \<open>The two invariants of the pending handle hold in every state that a sequence of
  calls reaches from a freshly constructed cache.\<close>

lemma step_allocated:
  assumes "handle_pending self" and "handle_allocated self"
    and "step for_code c self = Inr self'"
  shows "handle_allocated self'"
proof (cases c)
  case (Pair now cl)
  show ?thesis
  proof (cases cl)
    case RequestUpdate
    with Pair assms(3) have "self' = snd (request_update self)" by simp
    with assms(2) show ?thesis
      by (simp add: request_update_handle_allocated)
  next
    case (FailedUpdate e)
    with Pair assms(3) have "failed_update now e self = Inr self'" by simp
    then show ?thesis
      by (auto simp add: failed_update_pending [OF assms(1)] handle_allocated_None)
  next
    case (UpdateMetadata metadata)
    with Pair assms(3) have "update_metadata for_code now metadata self = Inr self'" by simp
    with update_metadata_pending [OF assms(1), of for_code now metadata] show ?thesis
      by (auto simp add: handle_allocated_None)
  next
    case (AddListener l)
    with Pair assms(3) have "self' = add_listener l self" by simp
    with assms(2) show ?thesis
      by (simp add: add_listener_def handle_allocated_def split: option.splits)
  next
    case (RemoveListener l)
    with Pair assms(3) have "self' = self\<lparr>self_listeners := self_listeners self - {l}\<rparr>"
      by (simp add: remove_listener_def split: if_splits)
    with assms(2) show ?thesis
      by (simp add: handle_allocated_def split: option.splits)
  qed
qed

lemma run_invariants:
  assumes "handle_pending self" and "handle_allocated self"
    and "run for_code cs self = Inr self'"
  shows "handle_pending self' \<and> handle_allocated self'"
  using assms
proof (induction cs arbitrary: self)
  case Nil
  then show ?case by simp
next
  case (Cons c cs)
  from Cons.prems(3) obtain mid where mid: "step for_code c self = Inr mid"
    and rest: "run for_code cs mid = Inr self'"
    by (auto split: sum.splits)
  from step_pending [OF Cons.prems(1) mid] have pending: "handle_pending mid" by simp
  from step_allocated [OF Cons.prems(1,2) mid] have allocated: "handle_allocated mid" .
  from Cons.IH [OF pending allocated rest] show ?case .
qed

lemma reachable_invariants:
  "run for_code cs (init kw) = Inr self \<Longrightarrow> handle_pending self \<and> handle_allocated self"
  by (rule run_invariants [OF init_handle_pending init_handle_allocated])

text \<open>
  Claim C5. From a state whose held handle (if any) is unresolved, a sequence of calls
  that removes no listener runs to its end, and the version at the end of a sequence
  is the version at its start plus the number of successful updates in it: calls of
  \<^verbatim>\<open>update_metadata\<close> that do not take the single-topic error path. The calls of
  \<^verbatim>\<open>failed_update\<close> and the single-topic error calls between them, as well as
  \<^verbatim>\<open>request_update\<close> and the listener calls, leave the version alone.
\<close>

theorem version_counts_successful_updates:
  assumes "handle_pending self"
  shows "((\<forall>c \<in> set cs. \<not> is_remove c) \<longrightarrow> (\<exists>self'. run for_code cs self = Inr self'))
     \<and> (\<forall>self'. run for_code cs self = Inr self' \<longrightarrow>
          self_version self' = self_version self + int (length (filter successful cs)))"
  using run_total [OF assms] run_version [OF assms] by blast

theorem version_counts_successful_updates_witness:
  "\<not> isl (run spec_for_code refresh_calls (init default_kwargs))
   \<and> self_version (projr (run spec_for_code refresh_calls (init default_kwargs))) = 2"
proof -
  have count: "length (filter successful refresh_calls) = 2"
    by (simp add: refresh_calls_def single_topic_error_def orders_response_def
        solo_response_def old_broker_response_def)
  have none: "\<forall>c \<in> set refresh_calls. \<not> is_remove c"
    by (simp add: refresh_calls_def)
  have start: "self_version (init default_kwargs) = 0"
    by (simp add: init_def)
  from version_counts_successful_updates
      [OF init_handle_pending [of default_kwargs], where cs = refresh_calls
        and for_code = spec_for_code]
  show ?thesis
    by (auto simp add: count none start)
qed

subsection \<open>The shared handle\<close>

lemma request_update_fresh:
  assumes "self_future self = None \<or> (\<exists>h. self_future self = Some h \<and> is_done (heap self) h)"
  shows "request_update self =
     (next_handle self,
      self\<lparr>self_need_update := True,
            heap := (heap self)(next_handle self := Unresolved),
            next_handle := Suc (next_handle self),
            self_future := Some (next_handle self)\<rparr>)"
  using assms by (auto simp add: request_update_def Let_def)

lemma request_update_shared:
  assumes "self_future self = Some h" and "\<not> is_done (heap self) h"
  shows "request_update self = (h, self\<lparr>self_need_update := True\<rparr>)"
  using assms by (simp add: request_update_def Let_def)

lemma request_update_result:
  "self_need_update (snd (request_update self))
   \<and> self_future (snd (request_update self)) = Some (fst (request_update self))
   \<and> \<not> is_done (heap (snd (request_update self))) (fst (request_update self))"
  by (simp add: request_update_def Let_def is_done_def split: option.splits)

lemma request_update_below:
  assumes "handle_allocated self"
  shows "fst (request_update self) < next_handle (snd (request_update self))"
  using assms
  by (simp add: request_update_def Let_def handle_allocated_def split: option.splits)

lemma request_update_after_clear:
  assumes "self_future self = None"
  shows "fst (request_update self) = next_handle self"
  using assms by (simp add: request_update_def Let_def)

text \<open>
  Claim C6. \<^verbatim>\<open>request_update\<close> sets the need-update flag and returns the handle that
  the cache then holds, which is unresolved. It allocates a new handle only when the
  cache holds none or holds a resolved one; otherwise it returns the held handle and
  leaves the store alone. A second call without a resolution in between returns the
  same handle, and a call after the handle has been resolved, by \<^verbatim>\<open>failed_update\<close>
  or by a successful \<^verbatim>\<open>update_metadata\<close>, returns a different one. The state is
  assumed to hold only an allocated handle, as every state that the calls reach does.
\<close>

theorem request_update_handle:
  assumes "handle_allocated self"
  shows "self_need_update (snd (request_update self))
     \<and> self_future (snd (request_update self)) = Some (fst (request_update self))
     \<and> heap (snd (request_update self)) (fst (request_update self)) = Unresolved
     \<and> (case self_future self of
          None \<Rightarrow>
            fst (request_update self) = next_handle self
            \<and> next_handle (snd (request_update self)) = Suc (next_handle self)
        | Some h \<Rightarrow>
            if is_done (heap self) h then
              fst (request_update self) = next_handle self
              \<and> fst (request_update self) \<noteq> h
              \<and> next_handle (snd (request_update self)) = Suc (next_handle self)
            else
              fst (request_update self) = h
              \<and> heap (snd (request_update self)) = heap self
              \<and> next_handle (snd (request_update self)) = next_handle self)
     \<and> fst (request_update (snd (request_update self))) = fst (request_update self)
     \<and> (\<exists>failed. failed_update now e (snd (request_update self)) = Inr failed
          \<and> heap failed (fst (request_update self)) = Failure e
          \<and> fst (request_update failed) \<noteq> fst (request_update self))
     \<and> (\<not> single_topic_error metadata \<longrightarrow>
          (\<exists>updated. update_metadata for_code now metadata (snd (request_update self)) = Inr updated
          \<and> heap updated (fst (request_update self)) = Success
          \<and> fst (request_update updated) \<noteq> fst (request_update self)))"
proof -
  let ?h = "fst (request_update self)"
  let ?s = "snd (request_update self)"
  note result = request_update_result [of self]
  from result have held: "self_future ?s = Some ?h" and open_cell: "\<not> is_done (heap ?s) ?h"
    by simp_all
  have pending: "handle_pending ?s"
    by (rule request_update_handle_pending)
  have below: "?h < next_handle ?s"
    by (rule request_update_below [OF assms])
  have part1: "self_need_update ?s \<and> self_future ?s = Some ?h \<and> heap ?s ?h = Unresolved"
    using result by (simp add: is_done_def)
  have part2: "(case self_future self of
          None \<Rightarrow>
            ?h = next_handle self \<and> next_handle ?s = Suc (next_handle self)
        | Some h \<Rightarrow>
            if is_done (heap self) h then
              ?h = next_handle self \<and> ?h \<noteq> h \<and> next_handle ?s = Suc (next_handle self)
            else
              ?h = h \<and> heap ?s = heap self \<and> next_handle ?s = next_handle self)"
    using assms
    by (auto simp add: request_update_def Let_def handle_allocated_def split: option.splits)
  have part3: "fst (request_update ?s) = ?h"
    using request_update_shared [OF held open_cell] by simp
  have part4: "\<exists>failed. failed_update now e ?s = Inr failed
          \<and> heap failed ?h = Failure e
          \<and> fst (request_update failed) \<noteq> ?h"
    using below
    by (simp add: failed_update_pending [OF pending] held request_update_after_clear)
  have part5: "\<not> single_topic_error metadata \<longrightarrow>
          (\<exists>updated. update_metadata for_code now metadata ?s = Inr updated
          \<and> heap updated ?h = Success
          \<and> fst (request_update updated) \<noteq> ?h)"
    using below
    by (simp add: update_metadata_merge [OF _ pending] held request_update_after_clear)
  from part1 part2 part3 part4 part5 show ?thesis
    by blast
qed

theorem request_update_handle_witness:
  "fst (request_update (init default_kwargs)) = 0
   \<and> fst (request_update (snd (request_update (init default_kwargs)))) = 0
   \<and> (\<exists>failed. failed_update 1000 (KafkaError (OtherError 7) ''down'')
                    (snd (request_update (init default_kwargs))) = Inr failed
        \<and> heap failed 0 = Failure (KafkaError (OtherError 7) ''down'')
        \<and> fst (request_update failed) \<noteq> 0)
   \<and> (\<exists>updated. update_metadata spec_for_code 1000 orders_response
                    (snd (request_update (init default_kwargs))) = Inr updated
        \<and> heap updated 0 = Success
        \<and> fst (request_update updated) \<noteq> 0)"
proof -
  have first: "fst (request_update (init default_kwargs)) = 0"
    by (simp add: request_update_def init_def Let_def)
  have merged: "\<not> single_topic_error orders_response"
    by (simp add: single_topic_error_def orders_response_def)
  show ?thesis
    using request_update_handle [OF init_handle_allocated [of default_kwargs],
        where now = 1000 and e = "KafkaError (OtherError 7) ''down''"
        and metadata = orders_response and for_code = spec_for_code]
    by (simp add: first merged)
qed

subsection \<open>What the merge loops compute\<close>

lemma update_brokers_lookup:
  "update_brokers m bs n =
     (case last_broker_entry bs n of Some b \<Rightarrow> Some b | None \<Rightarrow> m n)"
proof (induction bs arbitrary: m)
  case Nil
  show ?case by simp
next
  case (Cons entry rest)
  obtain node_id host port where entry: "entry = (node_id, host, port)"
    by (cases entry)
  show ?case
    unfolding entry by (simp add: Cons.IH split: option.splits)
qed

lemma last_broker_entry_None: "(last_broker_entry bs n = None) = (n \<notin> fst ` set bs)"
  by (induction bs) (auto split: option.splits)

lemma update_leaders_dom: "dom (update_leaders m ps) = dom m \<union> partition_index ` set ps"
proof (induction ps arbitrary: m)
  case Nil
  show ?case by simp
next
  case (Cons p rest)
  obtain e part leader replicas isr where p: "p = (e, part, leader, replicas, isr)"
    by (cases p)
  show ?case
    unfolding p by (auto simp add: Cons.IH partition_index_def)
qed

lemma update_partitions_lookup:
  "update_partitions for_code m ts t =
     (case last_noerror_entry for_code ts t of
        Some ps \<Rightarrow> Some (update_leaders Map.empty ps)
      | None \<Rightarrow> m t)"
proof (induction ts arbitrary: m)
  case Nil
  show ?case by simp
next
  case (Cons entry rest)
  obtain error_code topic parts where entry: "entry = (error_code, topic, parts)"
    by (cases entry)
  show ?case
    unfolding entry by (simp add: Cons.IH Let_def split: option.splits)
qed

lemma last_noerror_entry_None:
  "(last_noerror_entry for_code ts t = None) = (t \<notin> noerror_topics for_code ts)"
  by (induction ts) (auto simp add: noerror_topics_def split: option.splits)

lemma partitions_for_topic_eq:
  "partitions_for_topic self t = Inr (map_option dom (self_partitions self t))"
  by (cases "self_partitions self t") (simp_all add: partitions_for_topic_def dict_getitem_def)

lemma leader_for_partition_eq:
  "leader_for_partition self tp =
     Inr (case self_partitions self (tp_topic tp) of
            None \<Rightarrow> None
          | Some leaders \<Rightarrow> leaders (tp_partition tp))"
  by (cases "self_partitions self (tp_topic tp)")
     (simp_all add: leader_for_partition_def dict_getitem_def)

lemma rebuilt_partitions:
  "map_option dom (update_partitions for_code Map.empty ts t) =
     map_option (\<lambda>ps. partition_index ` set ps) (last_noerror_entry for_code ts t)"
  by (simp add: update_partitions_lookup update_leaders_dom split: option.splits)

lemma listed_partitions_distinct:
  assumes "distinct (map (\<lambda>e. fst (snd e)) ts)"
    and "last_noerror_entry for_code ts t = Some ps"
  shows "listed_partitions for_code ts t = partition_index ` set ps"
  using assms
proof (induction ts)
  case Nil
  then show ?case by simp
next
  case (Cons entry rest)
  obtain error_code topic parts where entry: "entry = (error_code, topic, parts)"
    by (cases entry)
  from Cons.prems(1) have fresh: "topic \<notin> (\<lambda>e. fst (snd e)) ` set rest"
    and rest: "distinct (map (\<lambda>e. fst (snd e)) rest)"
    by (simp_all add: entry)
  show ?case
  proof (cases "last_noerror_entry for_code rest t")
    case (Some qs)
    then have "t \<in> noerror_topics for_code rest"
      using last_noerror_entry_None [of for_code rest t] by simp
    then have "t \<in> (\<lambda>e. fst (snd e)) ` set rest"
      by (auto simp add: noerror_topics_def)
    with fresh have "topic \<noteq> t" by auto
    moreover from Some Cons.prems(2) have "qs = ps" by (simp add: entry)
    ultimately show ?thesis
      using Cons.IH [OF rest] Some by (simp add: entry listed_partitions_def)
  next
    case None
    with Cons.prems(2) have here: "topic = t" "for_code error_code = NoError" "parts = ps"
      by (simp_all add: entry split: if_splits)
    from here(1) fresh have "\<forall>e \<in> set rest. fst (snd e) \<noteq> t" by auto
    then have "filter (\<lambda>e. fst (snd e) = t \<and> for_code (fst e) = NoError) rest = []"
      by (simp add: filter_empty_conv)
    then show ?thesis
      using here by (simp add: entry listed_partitions_def)
  qed
qed

subsection \<open>The partition map after a merge\<close>

text \<open>
  Claim C1, as stated, fails for a response that names a topic twice: the second
  entry replaces the dictionary of the first, so the partitions of the first entry
  are not returned although the response lists them for the topic.
\<close>

theorem partitions_union_counterexample:
  "\<not> isl (run spec_for_code repeated_topic_calls (init default_kwargs))
   \<and> ''t'' \<in> noerror_topics spec_for_code (r_topics repeated_topic_response)
   \<and> listed_partitions spec_for_code (r_topics repeated_topic_response) ''t'' = {0, 1}
   \<and> partitions_for_topic (projr (run spec_for_code repeated_topic_calls (init default_kwargs))) ''t''
       = Inr (Some {1})
   \<and> partitions_for_topic (projr (run spec_for_code repeated_topic_calls (init default_kwargs))) ''t''
       \<noteq> Inr (Some (listed_partitions spec_for_code (r_topics repeated_topic_response) ''t''))"
proof -
  have merged: "\<not> single_topic_error repeated_topic_response"
    by (simp add: single_topic_error_def repeated_topic_response_def)
  have listed: "listed_partitions spec_for_code (r_topics repeated_topic_response) ''t'' = {0, 1}"
    by (auto simp add: listed_partitions_def repeated_topic_response_def spec_for_code_def
        partition_index_def)
  have named: "''t'' \<in> noerror_topics spec_for_code (r_topics repeated_topic_response)"
    by (simp add: noerror_topics_def repeated_topic_response_def spec_for_code_def)
  have ran: "run spec_for_code repeated_topic_calls (init default_kwargs) =
      update_metadata spec_for_code 1 repeated_topic_response (init default_kwargs)"
    by (simp add: repeated_topic_calls_def split: sum.splits)
  have last: "last_noerror_entry spec_for_code (r_topics repeated_topic_response) ''t''
      = Some [(0, 1, 2, [], [])]"
    by (simp add: repeated_topic_response_def spec_for_code_def)
  have found: "partitions_for_topic
      (projr (run spec_for_code repeated_topic_calls (init default_kwargs))) ''t'' = Inr (Some {1})"
    unfolding ran
    by (simp add: update_metadata_merge [OF merged init_handle_pending]
        partitions_for_topic_eq rebuilt_partitions last partition_index_def)
  have returned: "\<not> isl (run spec_for_code repeated_topic_calls (init default_kwargs))"
    unfolding ran by (simp add: update_metadata_merge [OF merged init_handle_pending])
  have "{1} \<noteq> {0, 1::int}" by auto
  with returned named listed found show ?thesis by simp
qed

text \<open>
  Claim C1, amended. After a call of \<^verbatim>\<open>update_metadata\<close> that does not take the
  single-topic error path (from a state whose held handle, if any, is unresolved), the
  topics for which \<^verbatim>\<open>partitions_for_topic\<close> finds something are exactly the topics
  that the response names with an error code of class \<open>NoError\<close>, and for each of
  them the result is the set of partition indices of the last such entry of the
  response. Nothing of the earlier partition map survives: the result is a function
  of the response alone. When the response names every topic once, that set is the
  set of all partition indices that the response lists for the topic.
\<close>

theorem partitions_rebuilt:
  assumes "\<not> single_topic_error metadata" and "handle_pending self"
  shows "\<exists>self'. update_metadata for_code now metadata self = Inr self'
     \<and> topics self' = noerror_topics for_code (r_topics metadata)
     \<and> (\<forall>t. (partitions_for_topic self' t \<noteq> Inr None)
              = (t \<in> noerror_topics for_code (r_topics metadata)))
     \<and> (\<forall>t. partitions_for_topic self' t =
              Inr (map_option (\<lambda>ps. partition_index ` set ps)
                    (last_noerror_entry for_code (r_topics metadata) t)))
     \<and> (distinct (map (\<lambda>e. fst (snd e)) (r_topics metadata)) \<longrightarrow>
          (\<forall>t \<in> noerror_topics for_code (r_topics metadata).
             partitions_for_topic self' t =
               Inr (Some (listed_partitions for_code (r_topics metadata) t))))"
proof -
  let ?ts = "r_topics metadata"
  let ?self' = "self\<lparr>self_brokers := update_brokers (self_brokers self) (r_brokers metadata),
               self_partitions := update_partitions for_code Map.empty ?ts,
               heap := (case self_future self of None \<Rightarrow> heap self
                          | Some h \<Rightarrow> (heap self)(h := Success)),
               self_future := None,
               self_need_update := False,
               self_version := self_version self + 1,
               self_last_refresh_ms := now,
               self_last_successful_refresh_ms := now,
               calls := notify (self_listeners self) (calls self)\<rparr>"
  have result: "update_metadata for_code now metadata self = Inr ?self'"
    by (rule update_metadata_merge [OF assms])
  have parts: "self_partitions ?self' = update_partitions for_code Map.empty ?ts"
    by simp
  have lookup: "partitions_for_topic ?self' t =
      Inr (map_option (\<lambda>ps. partition_index ` set ps) (last_noerror_entry for_code ?ts t))" for t
    unfolding partitions_for_topic_eq parts by (simp only: rebuilt_partitions)
  have found: "(partitions_for_topic ?self' t \<noteq> Inr None) = (t \<in> noerror_topics for_code ?ts)" for t
    unfolding lookup using last_noerror_entry_None [of for_code ?ts t] by auto
  have keys: "topics ?self' = noerror_topics for_code ?ts"
    unfolding topics_def parts
    using last_noerror_entry_None [of for_code ?ts]
    by (auto simp add: update_partitions_lookup dom_def split: option.splits)
  have listed: "partitions_for_topic ?self' t = Inr (Some (listed_partitions for_code ?ts t))"
    if "distinct (map (\<lambda>e. fst (snd e)) ?ts)" and "t \<in> noerror_topics for_code ?ts" for t
  proof -
    from that(2) obtain ps where ps: "last_noerror_entry for_code ?ts t = Some ps"
      using last_noerror_entry_None [of for_code ?ts t] by auto
    show ?thesis
      unfolding lookup ps by (simp add: listed_partitions_distinct [OF that(1) ps])
  qed
  from result lookup found keys listed show ?thesis
    by blast
qed

theorem partitions_rebuilt_witness:
  "\<exists>self'. update_metadata spec_for_code 1000 orders_response (init default_kwargs) = Inr self'
     \<and> topics self' = {''orders''}
     \<and> partitions_for_topic self' ''orders'' = Inr (Some {0, 1})
     \<and> partitions_for_topic self' ''ghost'' = Inr None
     \<and> partitions_for_topic self' ''orders''
         = Inr (Some (listed_partitions spec_for_code (r_topics orders_response) ''orders''))"
proof -
  have merged: "\<not> single_topic_error orders_response"
    by (simp add: single_topic_error_def orders_response_def)
  have names: "distinct (map (\<lambda>e. fst (snd e)) (r_topics orders_response))"
    by (simp add: orders_response_def)
  have keys: "noerror_topics spec_for_code (r_topics orders_response) = {''orders''}"
    by (simp add: noerror_topics_def orders_response_def spec_for_code_def)
  have orders: "last_noerror_entry spec_for_code (r_topics orders_response) ''orders''
      = Some [(0, 0, 1, [], []), (0, 1, 2, [], [])]"
    by (simp add: orders_response_def spec_for_code_def)
  have ghost: "last_noerror_entry spec_for_code (r_topics orders_response) ''ghost'' = None"
    by (simp add: orders_response_def spec_for_code_def)
  from partitions_rebuilt [OF merged init_handle_pending [of default_kwargs],
      of spec_for_code 1000]
  obtain self' where result:
      "update_metadata spec_for_code 1000 orders_response (init default_kwargs) = Inr self'"
    and known: "topics self' = noerror_topics spec_for_code (r_topics orders_response)"
    and lookup: "\<And>t. partitions_for_topic self' t =
        Inr (map_option (\<lambda>ps. partition_index ` set ps)
              (last_noerror_entry spec_for_code (r_topics orders_response) t))"
    and listed: "\<And>t. t \<in> noerror_topics spec_for_code (r_topics orders_response) \<Longrightarrow>
        partitions_for_topic self' t =
          Inr (Some (listed_partitions spec_for_code (r_topics orders_response) t))"
    using names by blast
  have "partitions_for_topic self' ''orders'' = Inr (Some {0, 1})"
    by (simp add: lookup orders partition_index_def)
  moreover have "partitions_for_topic self' ''ghost'' = Inr None"
    by (simp add: lookup ghost)
  moreover have "partitions_for_topic self' ''orders''
      = Inr (Some (listed_partitions spec_for_code (r_topics orders_response) ''orders''))"
    by (rule listed) (simp add: keys)
  ultimately show ?thesis
    using result known keys by auto
qed

subsection \<open>The partition map of a reachable state\<close>

lemma step_partitions:
  assumes "handle_pending self" and "step for_code c self = Inr self'"
  shows "self_partitions self' =
     (case last_successful [c] of
        None \<Rightarrow> self_partitions self
      | Some metadata \<Rightarrow> update_partitions for_code Map.empty (r_topics metadata))"
proof (cases c)
  case (Pair now cl)
  show ?thesis
  proof (cases cl)
    case RequestUpdate
    with Pair assms(2) show ?thesis
      by (auto simp add: request_update_def Let_def split: option.splits)
  next
    case (FailedUpdate e)
    with Pair assms(2) show ?thesis
      by (auto simp add: failed_update_pending [OF assms(1)])
  next
    case (UpdateMetadata metadata)
    show ?thesis
    proof (cases "single_topic_error metadata")
      case True
      with Pair UpdateMetadata assms(2) show ?thesis
        by (auto simp add: update_metadata_short_circuit failed_update_pending [OF assms(1)])
    next
      case False
      with Pair UpdateMetadata assms(2) show ?thesis
        by (auto simp add: update_metadata_merge [OF False assms(1)])
    qed
  next
    case (AddListener l)
    with Pair assms(2) show ?thesis
      by (auto simp add: add_listener_def)
  next
    case (RemoveListener l)
    with Pair assms(2) show ?thesis
      by (auto simp add: remove_listener_def split: if_splits)
  qed
qed

lemma run_partitions:
  assumes "handle_pending self" and "run for_code cs self = Inr self'"
  shows "self_partitions self' =
     (case last_successful cs of
        None \<Rightarrow> self_partitions self
      | Some metadata \<Rightarrow> update_partitions for_code Map.empty (r_topics metadata))"
  using assms
proof (induction cs arbitrary: self)
  case Nil
  then show ?case by simp
next
  case (Cons c cs)
  from Cons.prems(2) obtain mid where mid: "step for_code c self = Inr mid"
    and rest: "run for_code cs mid = Inr self'"
    by (auto split: sum.splits)
  from step_pending [OF Cons.prems(1) mid] have pending: "handle_pending mid" by simp
  note here = step_partitions [OF Cons.prems(1) mid]
  note later = Cons.IH [OF pending rest]
  show ?case
  proof (cases "last_successful cs")
    case (Some metadata)
    with later show ?thesis by simp
  next
    case None
    with later have "self_partitions self' = self_partitions mid" by simp
    with here None show ?thesis by simp
  qed
qed

text \<open>
  Claim C7, as stated, fails: a response whose only topic has error code 0 and no
  partitions is merged, the topic gets an empty dictionary, and
  \<^verbatim>\<open>partitions_for_topic\<close> returns the empty set for it.
\<close>

theorem empty_partition_set_counterexample:
  "\<not> isl (run spec_for_code no_partitions_calls (init default_kwargs))
   \<and> partitions_for_topic (projr (run spec_for_code no_partitions_calls (init default_kwargs))) ''t''
       = Inr (Some {})"
proof -
  have none: "\<forall>c \<in> set no_partitions_calls. \<not> is_remove c"
    by (simp add: no_partitions_calls_def)
  from run_total [OF init_handle_pending [of default_kwargs] none, of spec_for_code]
  obtain self' where result:
      "run spec_for_code no_partitions_calls (init default_kwargs) = Inr self'"
    by blast
  have last: "last_successful no_partitions_calls = Some no_partitions_response"
    by (simp add: no_partitions_calls_def single_topic_error_def no_partitions_response_def)
  have stored: "update_partitions spec_for_code Map.empty (r_topics no_partitions_response) ''t''
      = Some Map.empty"
    by (simp add: no_partitions_response_def spec_for_code_def)
  from run_partitions [OF init_handle_pending result] last
  have "self_partitions self' ''t'' = Some Map.empty"
    by (simp add: stored)
  then have "partitions_for_topic self' ''t'' = Inr (Some {})"
    by (simp add: partitions_for_topic_eq)
  with result show ?thesis by simp
qed

text \<open>
  Claim C7, amended. In every state that a sequence of calls reaches from a freshly
  constructed cache, \<^verbatim>\<open>partitions_for_topic\<close> does not fail; it returns not-found
  before the first successful update, and afterwards what the response of the last
  successful update gives: not-found for a topic without an entry of class
  \<open>NoError\<close>, and otherwise the partition indices of the last such entry. The
  result is the empty set exactly when that entry lists no partitions.
\<close>

theorem partitions_of_reachable_state:
  assumes "run for_code cs (init kw) = Inr self"
  shows "partitions_for_topic self t =
       (case last_successful cs of
          None \<Rightarrow> Inr None
        | Some metadata \<Rightarrow>
            Inr (map_option (\<lambda>ps. partition_index ` set ps)
                  (last_noerror_entry for_code (r_topics metadata) t)))
     \<and> (partitions_for_topic self t = Inr (Some {}))
         = (\<exists>metadata. last_successful cs = Some metadata
              \<and> last_noerror_entry for_code (r_topics metadata) t = Some [])"
proof -
  note parts = run_partitions [OF init_handle_pending assms]
  have first: "partitions_for_topic self t =
       (case last_successful cs of
          None \<Rightarrow> Inr None
        | Some metadata \<Rightarrow>
            Inr (map_option (\<lambda>ps. partition_index ` set ps)
                  (last_noerror_entry for_code (r_topics metadata) t)))"
  proof (cases "last_successful cs")
    case None
    with parts have "self_partitions self = self_partitions (init kw)" by simp
    then have "self_partitions self t = None" by (simp add: init_def)
    with None show ?thesis by (simp add: partitions_for_topic_eq)
  next
    case (Some metadata)
    with parts have "self_partitions self =
        update_partitions for_code Map.empty (r_topics metadata)" by simp
    with Some show ?thesis
      by (simp add: partitions_for_topic_eq rebuilt_partitions)
  qed
  have second: "(partitions_for_topic self t = Inr (Some {}))
         = (\<exists>metadata. last_successful cs = Some metadata
              \<and> last_noerror_entry for_code (r_topics metadata) t = Some [])"
    unfolding first by (auto split: option.splits)
  from first second show ?thesis by blast
qed

theorem partitions_of_reachable_state_witness:
  "\<not> isl (run spec_for_code orders_calls (init default_kwargs))
   \<and> partitions_for_topic (projr (run spec_for_code orders_calls (init default_kwargs))) ''orders''
       = Inr (Some {0, 1})
   \<and> partitions_for_topic (projr (run spec_for_code orders_calls (init default_kwargs))) ''t''
       = Inr None"
proof -
  have none: "\<forall>c \<in> set orders_calls. \<not> is_remove c"
    by (simp add: orders_calls_def)
  from run_total [OF init_handle_pending [of default_kwargs] none, of spec_for_code]
  obtain self where result: "run spec_for_code orders_calls (init default_kwargs) = Inr self"
    by blast
  have last: "last_successful orders_calls = Some orders_response"
    by (simp add: orders_calls_def single_topic_error_def orders_response_def
        solo_response_def)
  have orders: "last_noerror_entry spec_for_code (r_topics orders_response) ''orders''
      = Some [(0, 0, 1, [], []), (0, 1, 2, [], [])]"
    by (simp add: orders_response_def spec_for_code_def)
  have gone: "last_noerror_entry spec_for_code (r_topics orders_response) ''t'' = None"
    by (simp add: orders_response_def spec_for_code_def)
  have "partitions_for_topic self ''orders'' = Inr (Some {0, 1})"
    using partitions_of_reachable_state [OF result, of "''orders''"]
    by (simp add: last orders partition_index_def)
  moreover have "partitions_for_topic self ''t'' = Inr None"
    using partitions_of_reachable_state [OF result, of "''t''"]
    by (simp add: last gone)
  ultimately show ?thesis
    using result by simp
qed

subsection \<open>The broker map after a merge\<close>

text \<open>
  Claim C3, as stated, fails: a broker that an earlier response listed and the
  present one does not list is still returned by \<^verbatim>\<open>broker_metadata\<close> and by
  \<^verbatim>\<open>brokers\<close>, because the loop over \<^verbatim>\<open>metadata.brokers\<close> writes into the dictionary
  that is already there.
\<close>

theorem stale_broker_counterexample:
  "\<not> isl (run spec_for_code stale_broker_calls (init default_kwargs))
   \<and> broker_metadata (projr (run spec_for_code stale_broker_calls (init default_kwargs))) 7
       = Some (BrokerMetadata 7 ''h7'' 9092)
   \<and> BrokerMetadata 7 ''h7'' 9092
       \<in> brokers (projr (run spec_for_code stale_broker_calls (init default_kwargs)))
   \<and> BrokerMetadata 7 ''h7'' 9092 \<notin> ran (last_broker_entry (r_brokers orders_response))
   \<and> brokers (projr (run spec_for_code stale_broker_calls (init default_kwargs)))
       \<noteq> ran (last_broker_entry (r_brokers orders_response))"
proof -
  let ?s0 = "init default_kwargs"
  have first: "\<not> single_topic_error old_broker_response"
    by (simp add: single_topic_error_def old_broker_response_def)
  have second: "\<not> single_topic_error orders_response"
    by (simp add: single_topic_error_def orders_response_def)
  from update_metadata_pending [OF init_handle_pending [of default_kwargs],
      of spec_for_code 1 old_broker_response]
  obtain s1 where s1: "update_metadata spec_for_code 1 old_broker_response ?s0 = Inr s1"
    and cleared: "self_future s1 = None"
    by blast
  have pending1: "handle_pending s1"
    by (rule handle_pending_None [OF cleared])
  from update_metadata_pending [OF pending1, of spec_for_code 2 orders_response]
  obtain s2 where s2: "update_metadata spec_for_code 2 orders_response s1 = Inr s2"
    by blast
  have result: "run spec_for_code stale_broker_calls ?s0 = Inr s2"
    by (simp add: stale_broker_calls_def s1 s2)
  have b1: "self_brokers s1 = update_brokers (self_brokers ?s0) (r_brokers old_broker_response)"
    using s1 unfolding update_metadata_merge [OF first init_handle_pending] by auto
  have b2: "self_brokers s2 = update_brokers (self_brokers s1) (r_brokers orders_response)"
    using s2 unfolding update_metadata_merge [OF second pending1] by auto
  have kept: "self_brokers s2 7 = Some (BrokerMetadata 7 ''h7'' 9092)"
    unfolding b2 b1
    by (simp add: update_brokers_lookup orders_response_def old_broker_response_def)
  have absent: "BrokerMetadata 7 ''h7'' 9092 \<notin> ran (last_broker_entry (r_brokers orders_response))"
    by (auto simp add: ran_def orders_response_def split: if_splits)
  from kept have member: "BrokerMetadata 7 ''h7'' 9092 \<in> brokers s2"
    by (auto simp add: brokers_def ran_def)
  from member absent have "brokers s2 \<noteq> ran (last_broker_entry (r_brokers orders_response))"
    by auto
  with result kept member absent show ?thesis
    by (simp add: broker_metadata_def)
qed

text \<open>
  Claim C3, amended. After a call of \<^verbatim>\<open>update_metadata\<close> that does not take the
  single-topic error path (from a state whose held handle, if any, is unresolved),
  \<^verbatim>\<open>broker_metadata\<close> returns for a node id that the response lists the
  \<open>BrokerMetadata\<close> built from its last entry for that id, and for every other node
  id what it returned before; \<^verbatim>\<open>brokers\<close> returns the values built from the
  response together with the values of the brokers known before whose node id the
  response does not list.
\<close>

theorem brokers_upserted:
  assumes "\<not> single_topic_error metadata" and "handle_pending self"
  shows "\<exists>self'. update_metadata for_code now metadata self = Inr self'
     \<and> (\<forall>n. broker_metadata self' n =
              (case last_broker_entry (r_brokers metadata) n of
                 Some b \<Rightarrow> Some b
               | None \<Rightarrow> broker_metadata self n))
     \<and> brokers self' =
          ran (last_broker_entry (r_brokers metadata))
          \<union> {b. \<exists>n. n \<notin> fst ` set (r_brokers metadata) \<and> broker_metadata self n = Some b}"
proof -
  let ?bs = "r_brokers metadata"
  let ?self' = "self\<lparr>self_brokers := update_brokers (self_brokers self) ?bs,
               self_partitions := update_partitions for_code Map.empty (r_topics metadata),
               heap := (case self_future self of None \<Rightarrow> heap self
                          | Some h \<Rightarrow> (heap self)(h := Success)),
               self_future := None,
               self_need_update := False,
               self_version := self_version self + 1,
               self_last_refresh_ms := now,
               self_last_successful_refresh_ms := now,
               calls := notify (self_listeners self) (calls self)\<rparr>"
  have result: "update_metadata for_code now metadata self = Inr ?self'"
    by (rule update_metadata_merge [OF assms])
  have lookup: "broker_metadata ?self' n =
      (case last_broker_entry ?bs n of Some b \<Rightarrow> Some b | None \<Rightarrow> broker_metadata self n)" for n
    by (simp add: broker_metadata_def update_brokers_lookup split: option.splits)
  have image: "brokers ?self' =
      ran (last_broker_entry ?bs)
      \<union> {b. \<exists>n. n \<notin> fst ` set ?bs \<and> broker_metadata self n = Some b}"
  proof (rule set_eqI)
    fix b
    have "(b \<in> brokers ?self') = (\<exists>n. broker_metadata ?self' n = Some b)"
      by (simp add: brokers_def ran_def broker_metadata_def)
    also have "\<dots> = (\<exists>n. (case last_broker_entry ?bs n of Some b' \<Rightarrow> Some b'
                              | None \<Rightarrow> broker_metadata self n) = Some b)"
      by (simp only: lookup)
    also have "\<dots> = (b \<in> ran (last_broker_entry ?bs)
        \<union> {b. \<exists>n. n \<notin> fst ` set ?bs \<and> broker_metadata self n = Some b})"
    proof
      assume "\<exists>n. (case last_broker_entry ?bs n of Some b' \<Rightarrow> Some b'
                    | None \<Rightarrow> broker_metadata self n) = Some b"
      then obtain n where n: "(case last_broker_entry ?bs n of Some b' \<Rightarrow> Some b'
                    | None \<Rightarrow> broker_metadata self n) = Some b" ..
      show "b \<in> ran (last_broker_entry ?bs)
          \<union> {b. \<exists>n. n \<notin> fst ` set ?bs \<and> broker_metadata self n = Some b}"
      proof (cases "last_broker_entry ?bs n")
        case None
        with n have "broker_metadata self n = Some b" by simp
        moreover from None have "n \<notin> fst ` set ?bs"
          by (simp add: last_broker_entry_None)
        ultimately show ?thesis by blast
      next
        case (Some b')
        with n have "last_broker_entry ?bs n = Some b" by simp
        then show ?thesis by (auto simp add: ran_def)
      qed
    next
      assume "b \<in> ran (last_broker_entry ?bs)
          \<union> {b. \<exists>n. n \<notin> fst ` set ?bs \<and> broker_metadata self n = Some b}"
      then consider (listed) n where "last_broker_entry ?bs n = Some b"
        | (kept) n where "n \<notin> fst ` set ?bs" and "broker_metadata self n = Some b"
        by (auto simp add: ran_def)
      then show "\<exists>n. (case last_broker_entry ?bs n of Some b' \<Rightarrow> Some b'
                    | None \<Rightarrow> broker_metadata self n) = Some b"
      proof cases
        case listed
        then have "(case last_broker_entry ?bs n of Some b' \<Rightarrow> Some b'
                    | None \<Rightarrow> broker_metadata self n) = Some b" by simp
        then show ?thesis ..
      next
        case kept
        from kept(1) have "last_broker_entry ?bs n = None"
          by (simp add: last_broker_entry_None)
        with kept(2) have "(case last_broker_entry ?bs n of Some b' \<Rightarrow> Some b'
                    | None \<Rightarrow> broker_metadata self n) = Some b" by simp
        then show ?thesis ..
      qed
    qed
    finally show "(b \<in> brokers ?self') = (b \<in> ran (last_broker_entry ?bs)
        \<union> {b. \<exists>n. n \<notin> fst ` set ?bs \<and> broker_metadata self n = Some b})" .
  qed
  from result lookup image show ?thesis
    by blast
qed

theorem brokers_upserted_witness:
  "\<exists>self'. update_metadata spec_for_code 2 orders_response
       (projr (update_metadata spec_for_code 1 old_broker_response (init default_kwargs)))
       = Inr self'
     \<and> broker_metadata self' 1 = Some (BrokerMetadata 1 ''h1'' 9092)
     \<and> broker_metadata self' 2 = Some (BrokerMetadata 2 ''h2'' 9092)
     \<and> broker_metadata self' 7 = Some (BrokerMetadata 7 ''h7'' 9092)
     \<and> broker_metadata self' 3 = None"
proof -
  let ?s0 = "init default_kwargs"
  have first: "\<not> single_topic_error old_broker_response"
    by (simp add: single_topic_error_def old_broker_response_def)
  have second: "\<not> single_topic_error orders_response"
    by (simp add: single_topic_error_def orders_response_def)
  from update_metadata_pending [OF init_handle_pending [of default_kwargs],
      of spec_for_code 1 old_broker_response]
  obtain s1 where s1: "update_metadata spec_for_code 1 old_broker_response ?s0 = Inr s1"
    and cleared: "self_future s1 = None"
    by blast
  have pending1: "handle_pending s1"
    by (rule handle_pending_None [OF cleared])
  have b1: "self_brokers s1 = update_brokers (self_brokers ?s0) (r_brokers old_broker_response)"
    using s1 unfolding update_metadata_merge [OF first init_handle_pending] by auto
  have before: "broker_metadata s1 7 = Some (BrokerMetadata 7 ''h7'' 9092)"
    "broker_metadata s1 3 = None"
    unfolding broker_metadata_def b1
    by (simp_all add: update_brokers_lookup old_broker_response_def init_def)
  have entries: "last_broker_entry (r_brokers orders_response) 1 = Some (BrokerMetadata 1 ''h1'' 9092)"
    "last_broker_entry (r_brokers orders_response) 2 = Some (BrokerMetadata 2 ''h2'' 9092)"
    "last_broker_entry (r_brokers orders_response) 7 = None"
    "last_broker_entry (r_brokers orders_response) 3 = None"
    by (simp_all add: orders_response_def)
  from brokers_upserted [OF second pending1, of spec_for_code 2]
  obtain self' where result: "update_metadata spec_for_code 2 orders_response s1 = Inr self'"
    and lookup: "\<And>n. broker_metadata self' n =
        (case last_broker_entry (r_brokers orders_response) n of
           Some b \<Rightarrow> Some b
         | None \<Rightarrow> broker_metadata s1 n)"
    by blast
  show ?thesis
    using result by (simp add: s1 lookup entries before)
qed

subsection \<open>A response without topics\<close>

lemma failed_update_raises:
  "failed_update now e self = Inl err \<Longrightarrow> err = IllegalStateError"
  by (auto simp add: failed_update_def future_failure_def split: option.splits if_splits)

lemma update_metadata_raises:
  assumes "update_metadata for_code now metadata self = Inl err"
  shows "err = IllegalStateError"
proof (cases "single_topic_error metadata")
  case True
  with assms show ?thesis
    by (auto simp add: update_metadata_short_circuit dest: failed_update_raises)
next
  case False
  show ?thesis
  proof (cases "self_future self")
    case None
    with False assms show ?thesis
      by (simp add: update_metadata_def Let_def)
  next
    case (Some h)
    with False assms show ?thesis
      by (cases "is_done (heap self) h")
         (simp_all add: update_metadata_def Let_def future_success_def)
  qed
qed

lemma warm_state_facts:
  "handle_pending warm_state"
  "self_future warm_state = Some 0"
  "self_listeners warm_state = {5}"
  "calls warm_state 5 = 1"
  "self_version warm_state = 1"
  "self_need_update warm_state"
  "broker_metadata warm_state 1 = Some (BrokerMetadata 1 ''h1'' 9092)"
  "partitions_for_topic warm_state ''orders'' = Inr (Some {0, 1})"
proof -
  let ?s0 = "add_listener 5 (init default_kwargs)"
  have pending: "handle_pending ?s0"
    by (simp add: handle_pending_def add_listener_def init_def)
  have merged: "\<not> single_topic_error orders_response"
    by (simp add: single_topic_error_def orders_response_def)
  note step = update_metadata_merge [OF merged pending, of spec_for_code 2]
  show "handle_pending warm_state"
    unfolding warm_state_def by (rule request_update_handle_pending)
  show "self_future warm_state = Some 0"
    unfolding warm_state_def step
    by (simp add: request_update_def Let_def add_listener_def init_def)
  show "self_listeners warm_state = {5}"
    unfolding warm_state_def step
    by (simp add: request_update_def Let_def add_listener_def init_def)
  show "calls warm_state 5 = 1"
    unfolding warm_state_def step
    by (simp add: request_update_def Let_def add_listener_def init_def notify_def)
  show "self_version warm_state = 1"
    unfolding warm_state_def step
    by (simp add: request_update_def Let_def add_listener_def init_def)
  show "self_need_update warm_state"
    unfolding warm_state_def step
    by (simp add: request_update_def Let_def)
  show "broker_metadata warm_state 1 = Some (BrokerMetadata 1 ''h1'' 9092)"
    unfolding warm_state_def step broker_metadata_def
    by (simp add: request_update_def Let_def update_brokers_lookup orders_response_def)
  have orders: "last_noerror_entry spec_for_code (r_topics orders_response) ''orders''
      = Some [(0, 0, 1, [], []), (0, 1, 2, [], [])]"
    by (simp add: orders_response_def spec_for_code_def)
  have "self_partitions warm_state =
      update_partitions spec_for_code Map.empty (r_topics orders_response)"
    unfolding warm_state_def step by (simp add: request_update_def Let_def)
  then show "partitions_for_topic warm_state ''orders'' = Inr (Some {0, 1})"
    by (simp add: partitions_for_topic_eq rebuilt_partitions orders partition_index_def)
qed

text \<open>
  Claim C10. A response whose topic list is empty does not take the single-topic error
  path. From a state whose held handle (if any) is unresolved, \<^verbatim>\<open>update_metadata\<close>
  then returns normally with an empty partition map, so that every topic is not-found;
  every broker known before is still known, and a broker whose node id the response
  does not list is unchanged; the handle (if any) is resolved with success and
  cleared, the need-update flag is cleared, the version is one more, both refresh
  stamps are \<open>now\<close>, and every listener has been invoked once more.
\<close>

theorem empty_topics_update:
  assumes "r_topics metadata = []" and "handle_pending self"
  shows "\<not> single_topic_error metadata
   \<and> (\<exists>self'. update_metadata for_code now metadata self = Inr self'
     \<and> topics self' = {}
     \<and> (\<forall>t. partitions_for_topic self' t = Inr None)
     \<and> (\<forall>n. broker_metadata self n \<noteq> None \<longrightarrow> broker_metadata self' n \<noteq> None)
     \<and> (\<forall>n. n \<notin> fst ` set (r_brokers metadata) \<longrightarrow>
            broker_metadata self' n = broker_metadata self n)
     \<and> heap self' = (case self_future self of None \<Rightarrow> heap self
                      | Some h \<Rightarrow> (heap self)(h := Success))
     \<and> self_future self' = None
     \<and> \<not> self_need_update self'
     \<and> self_version self' = self_version self + 1
     \<and> self_last_refresh_ms self' = now
     \<and> self_last_successful_refresh_ms self' = now
     \<and> self_listeners self' = self_listeners self
     \<and> (\<forall>l. calls self' l = (if l \<in> self_listeners self then Suc (calls self l)
                              else calls self l)))"
proof -
  from assms(1) have merged: "\<not> single_topic_error metadata"
    by (simp add: single_topic_error_def)
  note result = update_metadata_merge [OF merged assms(2), of for_code now]
  have kept: "\<forall>n. (\<exists>y. self_brokers self n = Some y) \<longrightarrow>
      (\<exists>y. update_brokers (self_brokers self) (r_brokers metadata) n = Some y)"
    by (auto simp add: update_brokers_lookup split: option.splits)
  have same: "n \<notin> fst ` set (r_brokers metadata) \<Longrightarrow>
      update_brokers (self_brokers self) (r_brokers metadata) n = self_brokers self n" for n
    using last_broker_entry_None [of "r_brokers metadata" n]
    by (simp add: update_brokers_lookup)
  show ?thesis
    unfolding result
    by (simp add: merged assms(1) topics_def partitions_for_topic_eq broker_metadata_def
        notify_def kept same)
qed

theorem empty_topics_update_witness:
  "partitions_for_topic warm_state ''orders'' = Inr (Some {0, 1})
   \<and> (\<exists>self'. update_metadata spec_for_code 3 empty_response warm_state = Inr self'
        \<and> partitions_for_topic self' ''orders'' = Inr None
        \<and> broker_metadata self' 1 = Some (BrokerMetadata 1 ''h1'' 9092)
        \<and> heap self' 0 = Success
        \<and> self_future self' = None
        \<and> \<not> self_need_update self'
        \<and> self_version self' = 2
        \<and> self_last_refresh_ms self' = 3
        \<and> self_last_successful_refresh_ms self' = 3
        \<and> calls self' 5 = 2)"
proof -
  have none: "r_topics empty_response = []"
    by (simp add: empty_response_def)
  have absent: "1 \<notin> fst ` set (r_brokers empty_response)"
    by (simp add: empty_response_def)
  from empty_topics_update [OF none warm_state_facts(1), of spec_for_code 3] absent
  show ?thesis
    by (auto simp add: warm_state_facts)
qed

subsection \<open>Listeners and lookups\<close>

lemma remove_listener_KeyError:
  "(remove_listener l self = Inl KeyError) = (l \<notin> self_listeners self)"
  by (simp add: remove_listener_def)

lemma remove_then_update:
  assumes "remove_listener l self = Inr s1"
    and "\<not> single_topic_error metadata"
    and "update_metadata for_code now metadata s1 = Inr s2"
  shows "calls s2 l = calls self l \<and> l \<notin> self_listeners s2"
proof -
  from assms(1) have s1: "s1 = self\<lparr>self_listeners := self_listeners self - {l}\<rparr>"
    by (simp add: remove_listener_def split: if_splits)
  show ?thesis
  proof (cases "self_future s1")
    case None
    with assms(2,3) show ?thesis
      by (auto simp add: update_metadata_def Let_def notify_def s1)
  next
    case (Some h)
    with assms(2,3) show ?thesis
      by (cases "is_done (heap s1) h")
         (auto simp add: update_metadata_def Let_def future_success_def notify_def s1)
  qed
qed

text \<open>
  Claim C9. \<^verbatim>\<open>remove_listener\<close> raises \<^verbatim>\<open>KeyError\<close> exactly when the callback is not
  in the listener set, and otherwise removes it. No other call raises
  \<^verbatim>\<open>KeyError\<close>: \<^verbatim>\<open>request_update\<close> and \<^verbatim>\<open>add_listener\<close> cannot raise at all, and
  \<^verbatim>\<open>failed_update\<close> and \<^verbatim>\<open>update_metadata\<close> never raise it and return normally
  whenever the held handle is unresolved. The lookups \<^verbatim>\<open>broker_metadata\<close>,
  \<^verbatim>\<open>partitions_for_topic\<close>, \<^verbatim>\<open>leader_for_partition\<close> and \<^verbatim>\<open>coordinator_for_group\<close>
  never raise and return not-found for a missing key. After a successful
  \<^verbatim>\<open>remove_listener\<close>, a successful \<^verbatim>\<open>update_metadata\<close> does not invoke the removed
  callback, while it invokes every remaining one.
\<close>

theorem remove_listener_usage_error:
  "(remove_listener l self = Inl KeyError) = (l \<notin> self_listeners self)
   \<and> (l \<in> self_listeners self \<longrightarrow>
        remove_listener l self = Inr (self\<lparr>self_listeners := self_listeners self - {l}\<rparr>))
   \<and> failed_update now e self \<noteq> Inl KeyError
   \<and> update_metadata for_code now metadata self \<noteq> Inl KeyError
   \<and> (handle_pending self \<longrightarrow>
        \<not> isl (failed_update now e self) \<and> \<not> isl (update_metadata for_code now metadata self))
   \<and> (self_brokers self n = None \<longrightarrow> broker_metadata self n = None)
   \<and> (self_partitions self t = None \<longrightarrow>
        partitions_for_topic self t = Inr None
        \<and> leader_for_partition self (TopicPartition t p) = Inr None)
   \<and> (\<forall>leaders. self_partitions self t = Some leaders \<and> leaders p = None \<longrightarrow>
        leader_for_partition self (TopicPartition t p) = Inr None)
   \<and> \<not> isl (partitions_for_topic self t)
   \<and> \<not> isl (leader_for_partition self tp)
   \<and> (self_groups self g = None \<longrightarrow> coordinator_for_group self g = None)
   \<and> (\<forall>s1 s2. remove_listener l self = Inr s1 \<and> \<not> single_topic_error metadata
          \<and> update_metadata for_code now metadata s1 = Inr s2 \<longrightarrow>
        calls s2 l = calls self l)
   \<and> (l \<in> self_listeners self \<and> handle_pending self \<and> \<not> single_topic_error metadata \<longrightarrow>
        (\<exists>s1 s2. remove_listener l self = Inr s1
           \<and> update_metadata for_code now metadata s1 = Inr s2
           \<and> calls s2 l = calls self l
           \<and> (\<forall>k \<in> self_listeners self - {l}. calls s2 k = Suc (calls self k))))"
proof -
  have a: "(remove_listener l self = Inl KeyError) = (l \<notin> self_listeners self)"
    by (rule remove_listener_KeyError)
  have b: "l \<in> self_listeners self \<longrightarrow>
        remove_listener l self = Inr (self\<lparr>self_listeners := self_listeners self - {l}\<rparr>)"
    by (simp add: remove_listener_def)
  have c: "failed_update now e self \<noteq> Inl KeyError"
    using failed_update_raises [of now e self KeyError] by auto
  have d: "update_metadata for_code now metadata self \<noteq> Inl KeyError"
    using update_metadata_raises [of for_code now metadata self KeyError] by auto
  have e: "handle_pending self \<longrightarrow>
        \<not> isl (failed_update now e self) \<and> \<not> isl (update_metadata for_code now metadata self)"
  proof
    assume pending: "handle_pending self"
    from update_metadata_pending [OF pending, of for_code now metadata]
    show "\<not> isl (failed_update now e self) \<and> \<not> isl (update_metadata for_code now metadata self)"
      by (auto simp add: failed_update_pending [OF pending])
  qed
  have f: "self_brokers self n = None \<longrightarrow> broker_metadata self n = None"
    by (simp add: broker_metadata_def)
  have g: "self_partitions self t = None \<longrightarrow>
        partitions_for_topic self t = Inr None
        \<and> leader_for_partition self (TopicPartition t p) = Inr None"
    by (simp add: partitions_for_topic_eq leader_for_partition_eq)
  have h: "\<forall>leaders. self_partitions self t = Some leaders \<and> leaders p = None \<longrightarrow>
        leader_for_partition self (TopicPartition t p) = Inr None"
    by (simp add: leader_for_partition_eq)
  have i: "\<not> isl (partitions_for_topic self t)" "\<not> isl (leader_for_partition self tp)"
    by (simp_all add: partitions_for_topic_eq leader_for_partition_eq)
  have j: "self_groups self g = None \<longrightarrow> coordinator_for_group self g = None"
    by (simp add: coordinator_for_group_def)
  have k: "\<forall>s1 s2. remove_listener l self = Inr s1 \<and> \<not> single_topic_error metadata
          \<and> update_metadata for_code now metadata s1 = Inr s2 \<longrightarrow>
        calls s2 l = calls self l"
    using remove_then_update [of l self _ metadata for_code now] by blast
  have m: "l \<in> self_listeners self \<and> handle_pending self \<and> \<not> single_topic_error metadata \<longrightarrow>
        (\<exists>s1 s2. remove_listener l self = Inr s1
           \<and> update_metadata for_code now metadata s1 = Inr s2
           \<and> calls s2 l = calls self l
           \<and> (\<forall>k \<in> self_listeners self - {l}. calls s2 k = Suc (calls self k)))"
  proof
    assume asm: "l \<in> self_listeners self \<and> handle_pending self \<and> \<not> single_topic_error metadata"
    let ?s1 = "self\<lparr>self_listeners := self_listeners self - {l}\<rparr>"
    from asm have removed: "remove_listener l self = Inr ?s1"
      by (simp add: remove_listener_def)
    from asm have pending: "handle_pending ?s1"
      using handle_pending_cong [of ?s1 self] by simp
    from asm have merged: "\<not> single_topic_error metadata" by simp
    note result = update_metadata_merge [OF merged pending, of for_code now]
    have "\<exists>s2. update_metadata for_code now metadata ?s1 = Inr s2
           \<and> calls s2 l = calls self l
           \<and> (\<forall>k \<in> self_listeners self - {l}. calls s2 k = Suc (calls self k))"
      unfolding result by (simp add: notify_def)
    with removed show "\<exists>s1 s2. remove_listener l self = Inr s1
           \<and> update_metadata for_code now metadata s1 = Inr s2
           \<and> calls s2 l = calls self l
           \<and> (\<forall>k \<in> self_listeners self - {l}. calls s2 k = Suc (calls self k))"
      by blast
  qed
  from a b c d e f g h i j k m show ?thesis
    by blast
qed

theorem remove_listener_usage_error_witness:
  "remove_listener 7 (add_listener 6 warm_state) = Inl KeyError
   \<and> (\<exists>s1 s2. remove_listener 5 (add_listener 6 warm_state) = Inr s1
          \<and> update_metadata spec_for_code 3 orders_response s1 = Inr s2
          \<and> calls s2 5 = 1
          \<and> calls s2 6 = 1)
   \<and> broker_metadata (add_listener 6 warm_state) 9 = None
   \<and> partitions_for_topic (add_listener 6 warm_state) ''nope'' = Inr None
   \<and> leader_for_partition (add_listener 6 warm_state) (TopicPartition ''nope'' 0) = Inr None
   \<and> coordinator_for_group (add_listener 6 warm_state) ''g'' = None"
proof -
  let ?s = "add_listener 6 warm_state"
  have listeners: "self_listeners ?s = {5, 6}"
    by (auto simp add: add_listener_def warm_state_facts)
  have counts: "calls ?s 5 = 1" "calls ?s 6 = 0"
    unfolding warm_state_def
    by (simp_all add: add_listener_def request_update_def Let_def init_def notify_def
        update_metadata_def single_topic_error_def orders_response_def
        split: option.splits)
  have pending: "handle_pending ?s"
    using handle_pending_cong [of ?s warm_state] warm_state_facts(1)
    by (simp add: add_listener_def)
  have merged: "\<not> single_topic_error orders_response"
    by (simp add: single_topic_error_def orders_response_def)
  have misses: "self_brokers ?s 9 = None" "self_partitions ?s ''nope'' = None"
    "self_groups ?s ''g'' = None"
    unfolding warm_state_def
    by (simp_all add: add_listener_def request_update_def Let_def init_def
        update_metadata_def single_topic_error_def orders_response_def spec_for_code_def
        split: option.splits)
  note facts = remove_listener_usage_error [where self = ?s and metadata = orders_response
      and for_code = spec_for_code and now = 3 and n = 9 and t = "''nope''" and p = 0
      and g = "''g''"]
  have absent: "remove_listener 7 ?s = Inl KeyError"
    using facts [where l = 7] by (simp add: listeners)
  have member: "5 \<in> self_listeners ?s" and other: "6 \<in> self_listeners ?s - {5}"
    by (simp_all add: listeners)
  from facts [where l = 5]
  have "5 \<in> self_listeners ?s \<and> handle_pending ?s \<and> \<not> single_topic_error orders_response \<longrightarrow>
        (\<exists>s1 s2. remove_listener 5 ?s = Inr s1
           \<and> update_metadata spec_for_code 3 orders_response s1 = Inr s2
           \<and> calls s2 5 = calls ?s 5
           \<and> (\<forall>k \<in> self_listeners ?s - {5}. calls s2 k = Suc (calls ?s k)))"
    by blast
  with member pending merged obtain s1 s2 where s1: "remove_listener 5 ?s = Inr s1"
    and s2: "update_metadata spec_for_code 3 orders_response s1 = Inr s2"
    and silent: "calls s2 5 = calls ?s 5"
    and called: "\<forall>k \<in> self_listeners ?s - {5}. calls s2 k = Suc (calls ?s k)"
    by blast
  from called other have "calls s2 6 = Suc (calls ?s 6)"
    by blast
  with silent have "calls s2 5 = 1" "calls s2 6 = 1"
    by (simp_all add: counts)
  with s1 s2 have removed: "\<exists>s1 s2. remove_listener 5 ?s = Inr s1
          \<and> update_metadata spec_for_code 3 orders_response s1 = Inr s2
          \<and> calls s2 5 = 1
          \<and> calls s2 6 = 1"
    by blast
  have lookups: "broker_metadata ?s 9 = None"
    "partitions_for_topic ?s ''nope'' = Inr None"
    "leader_for_partition ?s (TopicPartition ''nope'' 0) = Inr None"
    "coordinator_for_group ?s ''g'' = None"
    using facts [where l = 5] misses by simp_all
  from absent removed lookups show ?thesis
    by blast
qed

end
